theory Spec2Isabelle
  imports Complex_Main "HOL-Library.Word"
begin

section \<open>K-means colour quantisation of images: the arrays\<close>

text \<open>
  The program (\<^verbatim>\<open>image_compressor.py\<close>, \<^verbatim>\<open>main.py\<close>) handles images as numpy arrays
  of unsigned bytes. An array is its shape and its elements in row-major order; numpy's
  \<^verbatim>\<open>reshape\<close> keeps the elements and changes the shape only. Every Python exception
  the program can meet is a value of \<open>error\<close>.
\<close>

datatype error =
    ValueError
  | IndexError
  | ZeroDivisionError
  | InvalidParameterError
  | FileNotFoundError
  | FileExistsError
  | NotADirectoryError
  | IsADirectoryError
  | SystemExit nat

type_synonym uint8 = "8 word"

record 'a ndarray =
  shape :: "nat list"
  data :: "'a list"

definition nd_size :: "'a ndarray \<Rightarrow> nat" where
  \<comment> \<open>numpy's \<^verbatim>\<open>a.size\<close>\<close>
  "nd_size a = prod_list (shape a)"

definition nd_ok :: "'a ndarray \<Rightarrow> bool" where
  \<comment> \<open>the invariant of every numpy array: as many elements as the shape says\<close>
  "nd_ok a \<longleftrightarrow> length (data a) = nd_size a"

definition reshape_m1_3 :: "'a ndarray \<Rightarrow> error + 'a ndarray" where
  \<comment> \<open>\<^verbatim>\<open>a.reshape(-1, 3)\<close>: the free dimension is \<open>size / 3\<close>; numpy raises
      ValueError when the size is not a multiple of 3\<close>
  "reshape_m1_3 a =
     (if nd_size a mod 3 = 0
      then Inr \<lparr>shape = [nd_size a div 3, 3], data = data a\<rparr>
      else Inl ValueError)"

definition reshape_to :: "nat list \<Rightarrow> 'a ndarray \<Rightarrow> error + 'a ndarray" where
  \<comment> \<open>\<^verbatim>\<open>a.reshape(s)\<close> for a full shape \<open>s\<close>: ValueError unless the sizes agree\<close>
  "reshape_to s a =
     (if prod_list s = nd_size a then Inr \<lparr>shape = s, data = data a\<rparr> else Inl ValueError)"

definition nrows :: "'a ndarray \<Rightarrow> nat" where
  \<comment> \<open>\<^verbatim>\<open>len(a)\<close>, the first dimension\<close>
  "nrows a = (case shape a of [] \<Rightarrow> 0 | n # _ \<Rightarrow> n)"

definition ncols :: "'a ndarray \<Rightarrow> nat" where
  \<comment> \<open>the second dimension of a two-dimensional array\<close>
  "ncols a = (case shape a of [_, c] \<Rightarrow> c | _ \<Rightarrow> 0)"

definition nd_row :: "'a ndarray \<Rightarrow> nat \<Rightarrow> 'a list" where
  \<comment> \<open>\<^verbatim>\<open>a[i]\<close> of a two-dimensional array, for \<open>i\<close> in range\<close>
  "nd_row a i = take (ncols a) (drop (i * ncols a) (data a))"

definition nd_rows :: "'a ndarray \<Rightarrow> 'a list list" where
  "nd_rows a = map (nd_row a) [0..<nrows a]"

definition np_unique_rows :: "'a ndarray \<Rightarrow> 'a list list" where
  \<comment> \<open>\<^verbatim>\<open>np.unique(a, axis=0)\<close>: the distinct rows. numpy returns them sorted; the
      program only takes the length of the result.\<close>
  "np_unique_rows a = remdups (nd_rows a)"

definition take_rows :: "'a ndarray \<Rightarrow> nat list \<Rightarrow> error + 'a ndarray" where
  \<comment> \<open>\<^verbatim>\<open>a[idx]\<close> with an index array: row \<open>idx[j]\<close> of \<open>a\<close> becomes row \<open>j\<close> of the
      result; an index out of range raises IndexError\<close>
  "take_rows a idx =
     (if \<forall>i \<in> set idx. i < nrows a
      then Inr \<lparr>shape = [length idx, ncols a], data = concat (map (nd_row a) idx)\<rparr>
      else Inl IndexError)"

definition f64_to_uint8 :: "real \<Rightarrow> uint8" where
  \<comment> \<open>the element conversion of \<^verbatim>\<open>astype(np.uint8)\<close>: the fraction is dropped
      (rounding towards zero); a value outside 0..255 is reduced modulo 256 here\<close>
  "f64_to_uint8 x = word_of_int (if 0 \<le> x then \<lfloor>x\<rfloor> else \<lceil>x\<rceil>)"

definition astype_uint8 :: "real ndarray \<Rightarrow> uint8 ndarray" where
  "astype_uint8 a = \<lparr>shape = shape a, data = map f64_to_uint8 (data a)\<rparr>"

definition nd_pixel :: "'a ndarray \<Rightarrow> nat \<Rightarrow> nat \<Rightarrow> 'a list" where
  \<comment> \<open>\<^verbatim>\<open>a[y, x]\<close> of a three-dimensional array (height, width, channels)\<close>
  "nd_pixel a y x =
     (case shape a of
        [h, w, c] \<Rightarrow> take c (drop ((y * w + x) * c) (data a))
      | _ \<Rightarrow> [])"


section \<open>The clustering engine\<close>

text \<open>
  The program clusters with scikit-learn's \<^verbatim>\<open>KMeans\<close>, a library outside the repository.
  It is a parameter of the model: a function from the constructor's arguments, the
  ambient random state of the process (which the library draws from when it is given no
  seed) and the sample array, to an exception or to the fitted centres and labels.
\<close>

record kmeans_params =
  n_clusters :: int
  random_state :: "int option"
  n_init :: nat

record kmeans_fit =
  cluster_centers :: "real ndarray"
  labels :: "nat list"

type_synonym kmeans = "kmeans_params \<Rightarrow> nat \<Rightarrow> uint8 ndarray \<Rightarrow> error + kmeans_fit"

definition fit_ok :: "nat \<Rightarrow> nat \<Rightarrow> kmeans_fit \<Rightarrow> bool" where
  \<comment> \<open>what a fit of \<open>n\<close> three-channel samples into \<open>k\<close> clusters looks like: \<open>k\<close> centres
      of three coordinates and one label below \<open>k\<close> for each sample\<close>
  "fit_ok k n f \<longleftrightarrow>
     shape (cluster_centers f) = [k, 3] \<and> nd_ok (cluster_centers f) \<and>
     length (labels f) = n \<and> (\<forall>l \<in> set (labels f). l < k)"

definition kmeans_fits :: "kmeans \<Rightarrow> bool" where
  \<comment> \<open>the library fits every sample array when \<open>1 \<le> k \<le> n\<close>\<close>
  "kmeans_fits km \<longleftrightarrow>
     (\<forall>p e X n. shape X = [n, 3] \<and> nd_ok X \<and> 1 \<le> n_clusters p \<and> n_clusters p \<le> int n
        \<longrightarrow> (\<exists>f. km p e X = Inr f \<and> fit_ok (nat (n_clusters p)) n f))"

definition kmeans_rejects :: "kmeans \<Rightarrow> bool" where
  \<comment> \<open>the library checks its parameters first and raises InvalidParameterError on a
      cluster count below 1; on a count above the number of samples (as on no samples at
      all) \<^verbatim>\<open>fit\<close> raises a plain ValueError\<close>
  "kmeans_rejects km \<longleftrightarrow>
     (\<forall>p e X n. shape X = [n, 3] \<longrightarrow>
        (n_clusters p < 1 \<longrightarrow> km p e X = Inl InvalidParameterError) \<and>
        (1 \<le> n_clusters p \<and> int n < n_clusters p \<longrightarrow> km p e X = Inl ValueError))"

definition kmeans_seeded :: "kmeans \<Rightarrow> bool" where
  \<comment> \<open>with a seed, the library's result does not depend on the ambient random state\<close>
  "kmeans_seeded km \<longleftrightarrow>
     (\<forall>p e e' X. random_state p \<noteq> None \<longrightarrow> km p e X = km p e' X)"

definition first_k_kmeans :: kmeans where
  \<comment> \<open>a small engine with the library's interface, to run the pipeline on concrete
      images: the first \<open>k\<close> samples are the centres, the labels go round the clusters
      starting from the seed (or from the ambient state without one)\<close>
  "first_k_kmeans p e X =
     (let n = nrows X; k = n_clusters p;
          s = (case random_state p of None \<Rightarrow> e | Some r \<Rightarrow> nat \<bar>r\<bar>)
      in if k < 1 then Inl InvalidParameterError
         else if int n < k then Inl ValueError
         else Inr \<lparr>cluster_centers =
                     \<lparr>shape = [nat k, 3],
                      data = map (\<lambda>b. real (unat b)) (take (3 * nat k) (data X))\<rparr>,
                   labels = map (\<lambda>i. (i + s) mod nat k) [0..<n]\<rparr>)"

definition channel_sum :: "uint8 ndarray \<Rightarrow> nat \<Rightarrow> nat" where
  \<comment> \<open>the sum of channel \<open>j\<close> over the samples of a sample array\<close>
  "channel_sum X j = sum_list (map (\<lambda>i. unat (data X ! (i * 3 + j))) [0..<nrows X])"

definition sample_mean :: "uint8 ndarray \<Rightarrow> real list" where
  \<comment> \<open>the mean of the samples, channel by channel\<close>
  "sample_mean X = map (\<lambda>j. real (channel_sum X j) / real (nrows X)) [0..<3]"

definition kmeans_one_mean :: "kmeans \<Rightarrow> bool" where
  \<comment> \<open>with one cluster every sample belongs to it, and the centre the library returns
      is the mean of the samples\<close>
  "kmeans_one_mean km \<longleftrightarrow>
     (\<forall>p e X n. shape X = [n, 3] \<and> nd_ok X \<and> 0 < n \<and> n_clusters p = 1
        \<longrightarrow> (\<exists>f. km p e X = Inr f \<and> nd_row (cluster_centers f) 0 = sample_mean X))"

definition mean_kmeans :: kmeans where
  \<comment> \<open>the small engine again, except that a single cluster gets the mean of the samples
      as its centre\<close>
  "mean_kmeans p e X =
     (if n_clusters p = 1 \<and> 0 < nrows X
      then Inr \<lparr>cluster_centers = \<lparr>shape = [1, 3], data = sample_mean X\<rparr>,
                labels = replicate (nrows X) 0\<rparr>
      else first_k_kmeans p e X)"


section \<open>\<^verbatim>\<open>image_compressor.py\<close>: compression of an array\<close>

definition compress_image_kmeans ::
  "kmeans \<Rightarrow> nat \<Rightarrow> uint8 ndarray \<Rightarrow> int \<Rightarrow> error + uint8 ndarray" where
  "compress_image_kmeans km e img_array n_colors =
     (let original_shape = shape img_array in
      case reshape_m1_3 img_array of
        Inl err \<Rightarrow> Inl err
      | Inr pixels \<Rightarrow>
          (case km \<lparr>n_clusters = n_colors, random_state = Some 42, n_init = 10\<rparr> e pixels of
             Inl err \<Rightarrow> Inl err
           | Inr fit \<Rightarrow>
               (case take_rows (cluster_centers fit) (labels fit) of
                  Inl err \<Rightarrow> Inl err
                | Inr compressed_pixels \<Rightarrow>
                    (case reshape_to original_shape compressed_pixels of
                       Inl err \<Rightarrow> Inl err
                     | Inr r \<Rightarrow> Inr (astype_uint8 r)))))"

definition calculate_compression_ratio ::
  "uint8 ndarray \<Rightarrow> uint8 ndarray \<Rightarrow> error + real" where
  "calculate_compression_ratio original_img compressed_img =
     (case reshape_m1_3 original_img of
        Inl err \<Rightarrow> Inl err
      | Inr po \<Rightarrow>
          (let orig_colors = length (np_unique_rows po) in
           case reshape_m1_3 compressed_img of
             Inl err \<Rightarrow> Inl err
           | Inr pc \<Rightarrow>
               (let comp_colors = length (np_unique_rows pc) in
                Inr (if comp_colors > 0 then real orig_colors / real comp_colors else 1))))"

definition colors :: "'a ndarray \<Rightarrow> 'a list set" where
  \<comment> \<open>the distinct colours of an image: the values of its pixels, whatever the number
      of channels (a pixel of a two-dimensional image is its one value)\<close>
  "colors a =
     (case shape a of
        [h, w, c] \<Rightarrow> set (concat (map (\<lambda>y. map (\<lambda>x. nd_pixel a y x) [0..<w]) [0..<h]))
      | [h, w] \<Rightarrow> set (map (\<lambda>v. [v]) (data a))
      | _ \<Rightarrow> {})"


section \<open>Paths and the file system\<close>

text \<open>
  The program reaches the file system through \<^verbatim>\<open>os\<close>, \<^verbatim>\<open>os.path\<close> and Pillow. Paths are
  strings, handled as \<^verbatim>\<open>posixpath\<close> handles them. The file system is the files with their
  contents and the directories that exist, each under the name it is reached by.
\<close>

type_synonym path = string
type_synonym bytes = "uint8 list"

record fs =
  files :: "path \<Rightarrow> bytes option"
  dirs :: "path set"

definition slash_split :: "path \<Rightarrow> path \<times> path" where
  \<comment> \<open>\<^verbatim>\<open>(p[:i], p[i:])\<close> for \<^verbatim>\<open>i = p.rfind('/') + 1\<close>\<close>
  "slash_split p =
     (rev (dropWhile (\<lambda>c. c \<noteq> CHR ''/'') (rev p)),
      rev (takeWhile (\<lambda>c. c \<noteq> CHR ''/'') (rev p)))"

definition os_path_dirname :: "path \<Rightarrow> path" where
  "os_path_dirname p =
     (let head = fst (slash_split p)
      in if head \<noteq> [] \<and> head \<noteq> replicate (length head) (CHR ''/'')
         then rev (dropWhile (\<lambda>c. c = CHR ''/'') (rev head))
         else head)"

definition os_path_basename :: "path \<Rightarrow> path" where
  "os_path_basename p = snd (slash_split p)"

definition os_path_join :: "path \<Rightarrow> path \<Rightarrow> path" where
  "os_path_join a b =
     (if b \<noteq> [] \<and> hd b = CHR ''/'' then b
      else if a = [] \<or> last a = CHR ''/'' then a @ b
      else a @ ''/'' @ b)"

definition splitext_root :: "path \<Rightarrow> path" where
  \<comment> \<open>\<^verbatim>\<open>os.path.splitext(p)[0]\<close>: the extension starts at the last dot of the last
      component, unless only dots come before it there\<close>
  "splitext_root p =
     (let head = fst (slash_split p); tail = snd (slash_split p);
          stem = rev (tl (dropWhile (\<lambda>c. c \<noteq> CHR ''.'') (rev tail)))
      in if CHR ''.'' \<in> set tail \<and> (\<exists>c \<in> set stem. c \<noteq> CHR ''.'') then head @ stem else p)"

function str_nat :: "nat \<Rightarrow> string" where
  "str_nat n =
     (if n < 10 then [''0123456789'' ! n]
      else str_nat (n div 10) @ [''0123456789'' ! (n mod 10)])"
  by pat_completeness auto
termination
  by (relation "measure (\<lambda>n. n)") auto

declare str_nat.simps [simp del]

definition str_int :: "int \<Rightarrow> string" where
  \<comment> \<open>an integer in an f-string\<close>
  "str_int i = (if i < 0 then ''-'' @ str_nat (nat (- i)) else str_nat (nat i))"

definition os_path_exists :: "fs \<Rightarrow> path \<Rightarrow> bool" where
  "os_path_exists s p \<longleftrightarrow> files s p \<noteq> None \<or> p \<in> dirs s"

definition dir_prefixes :: "path \<Rightarrow> path list" where
  \<comment> \<open>a directory path and every path above it that it names:
      \<^verbatim>\<open>a\<close>, \<^verbatim>\<open>a/b\<close>, \<^verbatim>\<open>a/b/c\<close> for \<^verbatim>\<open>a/b/c\<close>\<close>
  "dir_prefixes name =
     map (\<lambda>i. take i name)
       (filter (\<lambda>i. i = length name \<or> name ! i = CHR ''/'') [1..<Suc (length name)])"

definition os_makedirs :: "path \<Rightarrow> fs \<Rightarrow> error + fs" where
  \<comment> \<open>\<^verbatim>\<open>os.makedirs(name, exist_ok=True)\<close>: the empty name is no directory
      (FileNotFoundError); a file in the way is an error; otherwise the directory and
      those above it exist afterwards\<close>
  "os_makedirs name s =
     (if name = [] then Inl FileNotFoundError
      else if files s name \<noteq> None then Inl FileExistsError
      else if \<exists>q \<in> set (dir_prefixes name). files s q \<noteq> None then Inl NotADirectoryError
      else Inr (s\<lparr>dirs := dirs s \<union> set (dir_prefixes name)\<rparr>))"

definition write_file :: "path \<Rightarrow> bytes \<Rightarrow> fs \<Rightarrow> error + fs" where
  \<comment> \<open>opening \<open>p\<close> for writing and writing \<open>b\<close>: the directory of \<open>p\<close> has to exist (the
      empty one is the working directory)\<close>
  "write_file p b s =
     (if p \<in> dirs s then Inl IsADirectoryError
      else if os_path_dirname p \<noteq> [] \<and> os_path_dirname p \<notin> dirs s then Inl FileNotFoundError
      else Inr (s\<lparr>files := (files s)(p \<mapsto> b)\<rparr>))"


section \<open>\<^verbatim>\<open>image_compressor.py\<close>: files\<close>

text \<open>
  The collaborators outside the repository are fields of an environment: the clustering
  library and the ambient random state, Pillow's decoder (\<open>None\<close> when it raises) and
  encoder (which chooses the format by the path's extension and may raise), and the
  report generator of \<^verbatim>\<open>visualizer.py\<close>.
\<close>

record compression_result =
  r_n_colors :: int
  r_path :: path
  r_image :: "uint8 ndarray"
  r_ratio :: real
  r_file_size :: nat

record env =
  kmeans :: kmeans
  entropy :: nat
  decode :: "bytes \<Rightarrow> uint8 ndarray option"
  encode :: "path \<Rightarrow> uint8 ndarray \<Rightarrow> error + bytes"
  generate_full_report :: "path \<Rightarrow> compression_result list \<Rightarrow> path \<Rightarrow> fs \<Rightarrow> error + fs"

definition load_image :: "env \<Rightarrow> path \<Rightarrow> fs \<Rightarrow> uint8 ndarray option" where
  \<comment> \<open>every exception inside the \<^verbatim>\<open>try\<close> gives \<^verbatim>\<open>None\<close>: a missing file, a failing
      decoder, and the IndexError of \<^verbatim>\<open>img_array.shape[1]\<close> in the message\<close>
  "load_image E image_path s =
     (case files s image_path of
        None \<Rightarrow> None
      | Some b \<Rightarrow>
          (case decode E b of
             None \<Rightarrow> None
           | Some img_array \<Rightarrow> if length (shape img_array) < 2 then None else Some img_array))"

definition save_image :: "env \<Rightarrow> uint8 ndarray \<Rightarrow> path \<Rightarrow> fs \<Rightarrow> (error + nat) \<times> fs" where
  \<comment> \<open>Pillow settles the format and encodes before a file is left behind: a failing
      encoder leaves no new file\<close>
  "save_image E img_array output_path s =
     (case os_makedirs (os_path_dirname output_path) s of
        Inl err \<Rightarrow> (Inl err, s)
      | Inr s1 \<Rightarrow>
          (case encode E output_path img_array of
             Inl err \<Rightarrow> (Inl err, s1)
           | Inr b \<Rightarrow>
               (case write_file output_path b s1 of
                  Inl err \<Rightarrow> (Inl err, s1)
                | Inr s2 \<Rightarrow> (let file_size = length b in (Inr file_size, s2)))))"

definition compress_image_file ::
  "env \<Rightarrow> path \<Rightarrow> path \<Rightarrow> int \<Rightarrow> fs \<Rightarrow> (error + uint8 ndarray option) \<times> fs" where
  "compress_image_file E input_path output_path n_colors s =
     (case load_image E input_path s of
        None \<Rightarrow> (Inr None, s)
      | Some img_array \<Rightarrow>
          (case compress_image_kmeans (kmeans E) (entropy E) img_array n_colors of
             Inl err \<Rightarrow> (Inl err, s)
           | Inr compressed_img \<Rightarrow>
               (case calculate_compression_ratio img_array compressed_img of
                  Inl err \<Rightarrow> (Inl err, s)
                | Inr ratio \<Rightarrow>
                    (case save_image E compressed_img output_path s of
                       (Inl err, s') \<Rightarrow> (Inl err, s')
                     | (Inr file_size, s') \<Rightarrow> (Inr (Some compressed_img), s')))))"

definition level_filename :: "int \<Rightarrow> path" where
  \<comment> \<open>\<^verbatim>\<open>f"compressed_{n_colors}_colors.png"\<close>\<close>
  "level_filename n_colors = ''compressed_'' @ str_int n_colors @ ''_colors.png''"

fun levels_loop ::
  "env \<Rightarrow> uint8 ndarray \<Rightarrow> path \<Rightarrow> int list \<Rightarrow> compression_result list \<Rightarrow> fs
     \<Rightarrow> (error + compression_result list) \<times> fs" where
  \<comment> \<open>the \<^verbatim>\<open>for n_colors in levels\<close> loop of \<^verbatim>\<open>compress_with_multiple_levels\<close>,
      with \<^verbatim>\<open>results\<close> as it stands\<close>
  "levels_loop E img_array output_dir [] results s = (Inr results, s)"
| "levels_loop E img_array output_dir (n_colors # levels) results s =
     (case compress_image_kmeans (kmeans E) (entropy E) img_array n_colors of
        Inl err \<Rightarrow> (Inl err, s)
      | Inr compressed_img \<Rightarrow>
          (let filename = level_filename n_colors;
               output_path = os_path_join output_dir filename
           in case save_image E compressed_img output_path s of
                (Inl err, s') \<Rightarrow> (Inl err, s')
              | (Inr file_size, s') \<Rightarrow>
                  (case calculate_compression_ratio img_array compressed_img of
                     Inl err \<Rightarrow> (Inl err, s')
                   | Inr ratio \<Rightarrow>
                       levels_loop E img_array output_dir levels
                         (results @ [\<lparr>r_n_colors = n_colors, r_path = output_path,
                                     r_image = compressed_img, r_ratio = ratio,
                                     r_file_size = file_size\<rparr>]) s')))"

definition compress_with_multiple_levels ::
  "env \<Rightarrow> path \<Rightarrow> path \<Rightarrow> int list \<Rightarrow> fs \<Rightarrow> (error + compression_result list option) \<times> fs" where
  "compress_with_multiple_levels E input_path output_dir levels s =
     (case load_image E input_path s of
        None \<Rightarrow> (Inr None, s)
      | Some img_array \<Rightarrow>
          (case levels_loop E img_array output_dir levels [] s of
             (Inl err, s') \<Rightarrow> (Inl err, s')
           | (Inr results, s') \<Rightarrow> (Inr (Some results), s')))"


section \<open>\<^verbatim>\<open>main.py\<close>: the command surface\<close>

text \<open>
  In the source \<^verbatim>\<open>compress_with_analysis\<close> and \<^verbatim>\<open>main\<close> return nothing. The model lets them
  return what they have computed, so that it can be spoken about: the \<^verbatim>\<open>results\<close> that
  \<^verbatim>\<open>compress_with_analysis\<close> hands to the report and prints, and in \<^verbatim>\<open>main\<close> the value of
  the function that was called.
\<close>

record args =
  arg_input :: path
  arg_colors :: int
  arg_analysis :: bool
  arg_output :: path

datatype outcome =
    Single "uint8 ndarray option"
  | Analysis "compression_result list option"

definition compress_single_image ::
  "env \<Rightarrow> path \<Rightarrow> int \<Rightarrow> path \<Rightarrow> fs \<Rightarrow> (error + uint8 ndarray option) \<times> fs" where
  "compress_single_image E input_path n_colors output_dir s =
     (let filename = splitext_root (os_path_basename input_path);
          output_path =
            os_path_join output_dir (filename @ ''_compressed_'' @ str_int n_colors @ ''.png'')
      in compress_image_file E input_path output_path n_colors s)"

definition compress_with_analysis ::
  "env \<Rightarrow> path \<Rightarrow> path \<Rightarrow> path \<Rightarrow> fs \<Rightarrow> (error + compression_result list option) \<times> fs" where
  "compress_with_analysis E input_path output_dir comparison_dir s =
     (let levels = [4, 8, 16, 32, 64, 128] in
      case os_makedirs output_dir s of
        Inl err \<Rightarrow> (Inl err, s)
      | Inr s1 \<Rightarrow>
          (case os_makedirs comparison_dir s1 of
             Inl err \<Rightarrow> (Inl err, s1)
           | Inr s2 \<Rightarrow>
               (case compress_with_multiple_levels E input_path output_dir levels s2 of
                  (Inl err, s3) \<Rightarrow> (Inl err, s3)
                | (Inr None, s3) \<Rightarrow> (Inr None, s3)
                | (Inr (Some []), s3) \<Rightarrow> (Inr (Some []), s3)
                | (Inr (Some results), s3) \<Rightarrow>
                    (case generate_full_report E input_path results comparison_dir s3 of
                       Inl err \<Rightarrow> (Inl err, s3)
                     | Inr s4 \<Rightarrow> (Inr (Some results), s4)))))"

definition main :: "env \<Rightarrow> args \<Rightarrow> fs \<Rightarrow> (error + outcome) \<times> fs" where
  \<comment> \<open>\<^verbatim>\<open>main()\<close> after \<^verbatim>\<open>parse_args\<close>; \<^verbatim>\<open>sys.exit(1)\<close> raises \<^verbatim>\<open>SystemExit(1)\<close>\<close>
  "main E a s =
     (if \<not> os_path_exists s (arg_input a) then (Inl (SystemExit 1), s)
      else if arg_analysis a then
        (case compress_with_analysis E (arg_input a) (arg_output a) ''../images/comparisons'' s of
           (Inl err, s') \<Rightarrow> (Inl err, s')
         | (Inr results, s') \<Rightarrow> (Inr (Analysis results), s'))
      else
        (case compress_single_image E (arg_input a) (arg_colors a) (arg_output a) s of
           (Inl err, s') \<Rightarrow> (Inl err, s')
         | (Inr compressed_img, s') \<Rightarrow> (Inr (Single compressed_img), s')))"

definition exit_status :: "error + outcome \<Rightarrow> nat" where
  \<comment> \<open>the status of the process: that of \<^verbatim>\<open>SystemExit\<close>, 1 after any other uncaught
      exception, 0 when \<^verbatim>\<open>main\<close> returns\<close>
  "exit_status r = (case r of Inl (SystemExit n) \<Rightarrow> n | Inl _ \<Rightarrow> 1 | Inr _ \<Rightarrow> 0)"


section \<open>What a level of the analysis leaves behind\<close>

definition level_result :: "env \<Rightarrow> uint8 ndarray \<Rightarrow> path \<Rightarrow> compression_result \<Rightarrow> bool" where
  \<comment> \<open>the entry \<open>r\<close> of \<^verbatim>\<open>results\<close> holds its cluster count, the compression of \<open>img\<close> to
      that count, the ratio of the two images, the path under \<open>output_dir\<close> and the length
      of the encoding written there\<close>
  "level_result E img output_dir r \<longleftrightarrow>
     compress_image_kmeans (kmeans E) (entropy E) img (r_n_colors r) = Inr (r_image r) \<and>
     calculate_compression_ratio img (r_image r) = Inr (r_ratio r) \<and>
     r_path r = os_path_join output_dir (level_filename (r_n_colors r)) \<and>
     (case encode E (r_path r) (r_image r) of
        Inl err \<Rightarrow> False
      | Inr b \<Rightarrow> r_file_size r = length b)"


section \<open>Sample inputs\<close>

definition checker_2x2 :: "uint8 ndarray" where
  \<comment> \<open>black, white / white, black\<close>
  "checker_2x2 =
     \<lparr>shape = [2, 2, 3], data = [0, 0, 0, 255, 255, 255, 255, 255, 255, 0, 0, 0]\<rparr>"

definition flat_7 :: "uint8 ndarray" where
  "flat_7 = \<lparr>shape = [1, 2, 3], data = [7, 7, 7, 7, 7, 7]\<rparr>"

definition empty_0x0 :: "uint8 ndarray" where
  \<comment> \<open>an image without pixels\<close>
  "empty_0x0 = \<lparr>shape = [0, 0, 3], data = []\<rparr>"

definition gray_2x2 :: "uint8 ndarray" where
  \<comment> \<open>a single-channel image\<close>
  "gray_2x2 = \<lparr>shape = [2, 2], data = [10, 20, 30, 40]\<rparr>"

definition rgba_1x3 :: "uint8 ndarray" where
  \<comment> \<open>three pixels of four channels\<close>
  "rgba_1x3 = \<lparr>shape = [1, 3, 4], data = [1, 2, 3, 4, 5, 6, 7, 8, 9, 10, 11, 12]\<rparr>"

definition rgba_plain :: "uint8 ndarray" where
  \<comment> \<open>three pixels of four channels, all of the one colour\<close>
  "rgba_plain = \<lparr>shape = [1, 3, 4], data = [1, 2, 3, 4, 1, 2, 3, 4, 1, 2, 3, 4]\<rparr>"

definition black_8x16 :: "uint8 ndarray" where
  "black_8x16 = \<lparr>shape = [8, 16, 3], data = replicate 384 0\<rparr>"

definition sample_env :: env where
  \<comment> \<open>every file decodes to the black image, an image is encoded as its elements, the
      report writes nothing\<close>
  "sample_env =
     \<lparr>kmeans = first_k_kmeans, entropy = 0,
      decode = (\<lambda>b. Some black_8x16),
      encode = (\<lambda>p a. Inr (data a)),
      generate_full_report = (\<lambda>p rs d s. Inr s)\<rparr>"

definition sample_fs :: fs where
  "sample_fs = \<lparr>files = [''photo.png'' \<mapsto> [1, 2, 3]], dirs = {}\<rparr>"

definition sample_args :: args where
  "sample_args = \<lparr>arg_input = ''photo.png'', arg_colors = 16, arg_analysis = True, arg_output = ''out''\<rparr>"

definition sample_fs1 :: fs where
  \<comment> \<open>\<open>sample_fs\<close> with the output directory\<close>
  "sample_fs1 = \<lparr>files = [''photo.png'' \<mapsto> [1, 2, 3]], dirs = {''out''}\<rparr>"

definition sample_fs2 :: fs where
  \<comment> \<open>and with the directory of the comparisons\<close>
  "sample_fs2 =
     \<lparr>files = [''photo.png'' \<mapsto> [1, 2, 3]],
      dirs = {''out'', ''..'', ''../images'', ''../images/comparisons''}\<rparr>"


section \<open>Facts about rows and pixels\<close>

lemma row_of_concat:
  "\<forall>r \<in> set rs. length r = c \<Longrightarrow> i < length rs \<Longrightarrow> take c (drop (i * c) (concat rs)) = rs ! i"
proof (induction rs arbitrary: i)
  case Nil
  then show ?case by simp
next
  case (Cons r rs)
  show ?case
  proof (cases i)
    case 0
    with Cons.prems show ?thesis by simp
  next
    case (Suc j)
    with Cons.prems have "j < length rs" and "length r = c" by simp_all
    with Suc Cons.IH [of j] Cons.prems(1) show ?thesis by simp
  qed
qed

lemma length_concat_rows:
  "\<forall>r \<in> set rs. length r = c \<Longrightarrow> length (concat rs) = length rs * c"
  by (induction rs) simp_all

lemma centre_row_length:
  assumes "shape c = [k, 3]" "nd_ok c" "l < k"
  shows "length (nd_row c l) = 3"
proof -
  from assms have "length (data c) = k * 3" by (simp add: nd_ok_def nd_size_def)
  moreover from assms(3) have "l * 3 + 3 \<le> k * 3" by simp
  ultimately show ?thesis using assms(1) by (simp add: nd_row_def ncols_def)
qed

lemma quantised_row:
  assumes fo: "fit_ok k n f" and i: "i < n"
  shows "take 3 (drop (i * 3) (map g (concat (map (nd_row (cluster_centers f)) (labels f)))))
         = map g (nd_row (cluster_centers f) (labels f ! i))"
proof -
  let ?rs = "map (\<lambda>l. map g (nd_row (cluster_centers f) l)) (labels f)"
  from fo have csh: "shape (cluster_centers f) = [k, 3]" and cok: "nd_ok (cluster_centers f)"
    and ll: "length (labels f) = n" and lb: "\<forall>l \<in> set (labels f). l < k"
    by (simp_all add: fit_ok_def)
  have len: "\<forall>r \<in> set ?rs. length r = 3"
    using centre_row_length [OF csh cok] lb by auto
  have "map g (concat (map (nd_row (cluster_centers f)) (labels f))) = concat ?rs"
    by (simp add: map_concat comp_def)
  moreover have "take 3 (drop (i * 3) (concat ?rs)) = ?rs ! i"
    using len i ll by (intro row_of_concat) simp_all
  ultimately show ?thesis using i ll by simp
qed

lemma quantised_length:
  assumes fo: "fit_ok k n f"
  shows "length (concat (map (nd_row (cluster_centers f)) (labels f))) = n * 3"
proof -
  from fo have csh: "shape (cluster_centers f) = [k, 3]" and cok: "nd_ok (cluster_centers f)"
    and ll: "length (labels f) = n" and lb: "\<forall>l \<in> set (labels f). l < k"
    by (simp_all add: fit_ok_def)
  have "\<forall>r \<in> set (map (nd_row (cluster_centers f)) (labels f)). length r = 3"
    using centre_row_length [OF csh cok] lb by auto
  from length_concat_rows [OF this] ll show ?thesis by simp
qed

lemma pixel_index: "y < h \<Longrightarrow> x < w \<Longrightarrow> y * w + x < h * (w::nat)"
proof -
  assume "y < h" "x < w"
  then have "y * w + x < Suc y * w" by simp
  also from \<open>y < h\<close> have "\<dots> \<le> h * w" by (intro mult_le_mono1) simp
  finally show ?thesis .
qed

lemma quantised_pixel:
  assumes fo: "fit_ok k (h * w) f" and y: "y < h" and x: "x < w"
  shows "nd_pixel \<lparr>shape = [h, w, 3],
            data = map g (concat (map (nd_row (cluster_centers f)) (labels f)))\<rparr> y x
         = map g (nd_row (cluster_centers f) (labels f ! (y * w + x)))"
  using quantised_row [OF fo pixel_index [OF y x], of g] by (simp add: nd_pixel_def)

lemma colors_three_channel:
  assumes "shape a = [h, w, 3]"
  shows "colors a = (\<lambda>i. take 3 (drop (i * 3) (data a))) ` {..<h * w}"
proof -
  have c: "colors a = {nd_pixel a y x | y x. y < h \<and> x < w}"
    using assms by (force simp: colors_def)
  have p: "nd_pixel a y x = take 3 (drop ((y * w + x) * 3) (data a))" for y x
    using assms by (simp add: nd_pixel_def)
  show ?thesis
  proof (intro equalityI subsetI)
    fix r assume "r \<in> colors a"
    with c obtain y x where yx: "y < h" "x < w" and r: "r = nd_pixel a y x" by auto
    from pixel_index [OF yx] have "y * w + x \<in> {..<h * w}" by simp
    with r p show "r \<in> (\<lambda>i. take 3 (drop (i * 3) (data a))) ` {..<h * w}" by (simp only: image_eqI)
  next
    fix r assume "r \<in> (\<lambda>i. take 3 (drop (i * 3) (data a))) ` {..<h * w}"
    then obtain i where i: "i < h * w" and r: "r = take 3 (drop (i * 3) (data a))" by auto
    from i have w: "0 < w" by (cases w) simp_all
    from i have y: "i div w < h" by (simp add: less_mult_imp_div_less)
    from w have x: "i mod w < w" by simp
    have "i div w * w + i mod w = i" by (rule div_mult_mod_eq)
    with p [of "i div w" "i mod w"]
    have "nd_pixel a (i div w) (i mod w) = take 3 (drop (i * 3) (data a))" by (simp only:)
    with r have "r = nd_pixel a (i div w) (i mod w)" by simp
    with y x have "\<exists>y x. r = nd_pixel a y x \<and> y < h \<and> x < w" by (intro exI conjI)
    with c show "r \<in> colors a" by simp
  qed
qed

lemma take3_drop:
  assumes "n + 3 \<le> length xs"
  shows "take 3 (drop n xs) = [xs ! n, xs ! (n + 1), xs ! (n + 2)]"
proof -
  from assms have "length (take 3 (drop n xs)) = 3" by simp
  moreover have "take 3 (drop n xs) ! i = [xs ! n, xs ! (n + 1), xs ! (n + 2)] ! i" if "i < 3" for i
  proof -
    from that consider "i = 0" | "i = 1" | "i = 2" by linarith
    then show ?thesis using assms by cases simp_all
  qed
  ultimately show ?thesis by (simp add: list_eq_iff_nth_eq)
qed

lemma f64_to_uint8_in_range:
  assumes "0 \<le> x" "x < 256"
  shows "unat (f64_to_uint8 x) = nat \<lfloor>x\<rfloor>"
proof -
  from assms have "0 \<le> \<lfloor>x\<rfloor>" and "\<lfloor>x\<rfloor> < 256" by (simp_all add: floor_less_iff)
  then show ?thesis using assms(1)
    by (simp add: f64_to_uint8_def unat_eq_nat_uint uint_word_of_int take_bit_eq_mod)
qed

lemma channel_sum_bound: "channel_sum X j \<le> 255 * nrows X"
proof -
  have b: "unat (v :: uint8) \<le> 255" for v
    using unsigned_less [of v, where ?'a = nat] by simp
  have "sum_list (map f xs) \<le> 255 * length xs" if "\<forall>x. f x \<le> (255::nat)" for f :: "nat \<Rightarrow> nat" and xs
    using that by (induction xs) (simp_all add: add_mono)
  from this [of "\<lambda>i. unat (data X ! (i * 3 + j))" "[0..<nrows X]"] b
  show ?thesis by (simp add: channel_sum_def)
qed

lemma f64_to_uint8_mean:
  assumes "0 < n" "S \<le> 255 * n"
  shows "unat (f64_to_uint8 (real S / real n)) = S div n"
proof -
  from assms have "real S \<le> 255 * real n"
    by (metis of_nat_le_iff of_nat_mult of_nat_numeral)
  with assms(1) have "real S / real n \<le> 255" by (simp add: divide_le_eq)
  then have lt: "real S / real n < 256" by simp
  have ge: "0 \<le> real S / real n" by simp
  have "\<lfloor>real S / real n\<rfloor> = int (S div n)" by (rule floor_divide_of_nat_eq)
  with f64_to_uint8_in_range [OF ge lt] show ?thesis by simp
qed

lemma sample_mean_length: "length (sample_mean X) = 3"
  by (simp add: sample_mean_def)


section \<open>The small engine keeps the library's contract\<close>

lemma first_k_kmeans_run:
  assumes "\<not> n_clusters p < 1" "\<not> int (nrows X) < n_clusters p"
  shows "first_k_kmeans p e X =
     Inr \<lparr>cluster_centers =
            \<lparr>shape = [nat (n_clusters p), 3],
             data = map (\<lambda>b. real (unat b)) (take (3 * nat (n_clusters p)) (data X))\<rparr>,
          labels = map (\<lambda>i. (i + (case random_state p of None \<Rightarrow> e | Some r \<Rightarrow> nat \<bar>r\<bar>))
                              mod nat (n_clusters p)) [0..<nrows X]\<rparr>"
  using assms unfolding first_k_kmeans_def Let_def by (simp only: if_False)

lemma first_k_kmeans_fits: "kmeans_fits first_k_kmeans"
  unfolding kmeans_fits_def
proof (intro allI impI)
  fix p :: kmeans_params and e :: nat and X :: "uint8 ndarray" and n :: nat
  assume a: "shape X = [n, 3] \<and> nd_ok X \<and> 1 \<le> n_clusters p \<and> n_clusters p \<le> int n"
  define k where "k = nat (n_clusters p)"
  define s where "s = (case random_state p of None \<Rightarrow> e | Some r \<Rightarrow> nat \<bar>r\<bar>)"
  define f where "f = \<lparr>cluster_centers =
               \<lparr>shape = [k, 3], data = map (\<lambda>b. real (unat b)) (take (3 * k) (data X))\<rparr>,
             labels = map (\<lambda>i. (i + s) mod k) [0..<n]\<rparr>"
  from a have len: "length (data X) = n * 3" by (simp add: nd_ok_def nd_size_def)
  from a have kn: "k \<le> n" and k0: "0 < k" unfolding k_def by linarith+
  from a have nr: "nrows X = n" by (simp add: nrows_def)
  from a have valid: "\<not> n_clusters p < 1" "\<not> int (nrows X) < n_clusters p"
    unfolding nr by linarith+
  have run: "first_k_kmeans p e X = Inr f"
    unfolding f_def k_def s_def using first_k_kmeans_run [OF valid, of e] nr by simp
  have "fit_ok k n f"
    unfolding fit_ok_def
  proof (intro conjI)
    show "shape (cluster_centers f) = [k, 3]" by (simp add: f_def)
    from kn len have "length (take (3 * k) (data X)) = k * 3" by simp
    then show "nd_ok (cluster_centers f)" by (simp add: f_def nd_ok_def nd_size_def)
    show "length (labels f) = n" by (simp add: f_def)
    show "\<forall>l \<in> set (labels f). l < k" using k0 by (simp add: f_def)
  qed
  with run show "\<exists>f. first_k_kmeans p e X = Inr f \<and> fit_ok (nat (n_clusters p)) n f"
    unfolding k_def by blast
qed

lemma first_k_kmeans_rejects: "kmeans_rejects first_k_kmeans"
  unfolding kmeans_rejects_def
  by (auto simp: first_k_kmeans_def Let_def nrows_def)

lemma first_k_kmeans_seeded: "kmeans_seeded first_k_kmeans"
  unfolding kmeans_seeded_def
  by (auto simp: first_k_kmeans_def Let_def)

lemma mean_kmeans_one_mean: "kmeans_one_mean mean_kmeans"
  unfolding kmeans_one_mean_def
proof (intro allI impI)
  fix p :: kmeans_params and e :: nat and X :: "uint8 ndarray" and n :: nat
  assume a: "shape X = [n, 3] \<and> nd_ok X \<and> 0 < n \<and> n_clusters p = 1"
  then have nr: "nrows X = n" by (simp add: nrows_def)
  let ?f = "\<lparr>cluster_centers = \<lparr>shape = [1, 3], data = sample_mean X\<rparr>,
            labels = replicate (nrows X) 0\<rparr>"
  from a nr have "mean_kmeans p e X = Inr ?f" by (simp add: mean_kmeans_def)
  moreover have "nd_row (cluster_centers ?f) 0 = sample_mean X"
    by (simp add: nd_row_def ncols_def sample_mean_length)
  ultimately show "\<exists>f. mean_kmeans p e X = Inr f \<and> nd_row (cluster_centers f) 0 = sample_mean X"
    by (intro exI conjI)
qed

lemma mean_kmeans_fits: "kmeans_fits mean_kmeans"
  unfolding kmeans_fits_def
proof (intro allI impI)
  fix p :: kmeans_params and e :: nat and X :: "uint8 ndarray" and n :: nat
  assume a: "shape X = [n, 3] \<and> nd_ok X \<and> 1 \<le> n_clusters p \<and> n_clusters p \<le> int n"
  then have nr: "nrows X = n" by (simp add: nrows_def)
  show "\<exists>f. mean_kmeans p e X = Inr f \<and> fit_ok (nat (n_clusters p)) n f"
  proof (cases "n_clusters p = 1")
    case True
    let ?f = "\<lparr>cluster_centers = \<lparr>shape = [1, 3], data = sample_mean X\<rparr>,
              labels = replicate (nrows X) 0\<rparr>"
    from a True have "0 < n" by simp
    with True nr have "mean_kmeans p e X = Inr ?f" by (simp add: mean_kmeans_def)
    moreover have "fit_ok 1 n ?f"
      by (simp add: fit_ok_def nd_ok_def nd_size_def sample_mean_length nr)
    ultimately show ?thesis using True by (intro exI conjI) simp_all
  next
    case False
    then have "mean_kmeans p e X = first_k_kmeans p e X" by (simp add: mean_kmeans_def)
    with first_k_kmeans_fits a show ?thesis unfolding kmeans_fits_def by simp
  qed
qed


section \<open>The compressed array\<close>

lemma compress_image_kmeans_result:
  assumes fits: "kmeans_fits km"
    and sh: "shape img = [h, w, 3]" and ok: "nd_ok img"
    and k: "1 \<le> k" "k \<le> int (h * w)"
  shows "\<exists>f. km \<lparr>n_clusters = k, random_state = Some 42, n_init = 10\<rparr> e
                \<lparr>shape = [h * w, 3], data = data img\<rparr> = Inr f \<and>
             fit_ok (nat k) (h * w) f \<and>
             compress_image_kmeans km e img k =
               Inr \<lparr>shape = [h, w, 3],
                    data = map f64_to_uint8 (concat (map (nd_row (cluster_centers f)) (labels f)))\<rparr>"
proof -
  let ?p = "\<lparr>n_clusters = k, random_state = Some 42, n_init = 10\<rparr>"
  let ?X = "\<lparr>shape = [h * w, 3], data = data img\<rparr>"
  have size: "nd_size img = h * w * 3" using sh by (simp add: nd_size_def)
  have rs: "reshape_m1_3 img = Inr ?X" by (simp add: reshape_m1_3_def size)
  have "nd_ok ?X" using ok size by (simp add: nd_ok_def nd_size_def)
  with fits k obtain f where f: "km ?p e ?X = Inr f" and fo: "fit_ok (nat k) (h * w) f"
    unfolding kmeans_fits_def by (metis kmeans_params.select_convs(1) ndarray.select_convs(1))
  from fo have csh: "shape (cluster_centers f) = [nat k, 3]"
    and ll: "length (labels f) = h * w" and lb: "\<forall>l \<in> set (labels f). l < nat k"
    by (simp_all add: fit_ok_def)
  have tr: "take_rows (cluster_centers f) (labels f) =
      Inr \<lparr>shape = [h * w, 3], data = concat (map (nd_row (cluster_centers f)) (labels f))\<rparr>"
    using csh ll lb by (simp add: take_rows_def nrows_def ncols_def)
  have "compress_image_kmeans km e img k =
      Inr \<lparr>shape = [h, w, 3],
           data = map f64_to_uint8 (concat (map (nd_row (cluster_centers f)) (labels f)))\<rparr>"
    by (simp add: compress_image_kmeans_def rs f tr sh reshape_to_def nd_size_def astype_uint8_def)
  with f fo show ?thesis by blast
qed


section \<open>Facts about the file system\<close>

lemma load_image_files: "files s' = files s \<Longrightarrow> load_image E p s' = load_image E p s"
  by (simp add: load_image_def)

lemma dir_prefixes_self: "name \<noteq> [] \<Longrightarrow> name \<in> set (dir_prefixes name)"
proof -
  assume "name \<noteq> []"
  then have "length name \<in> set (filter (\<lambda>i. i = length name \<or> name ! i = CHR ''/'')
      [1..<Suc (length name)])"
    by (cases name) simp_all
  then have "take (length name) name \<in> set (dir_prefixes name)"
    unfolding dir_prefixes_def by (simp only: set_map image_eqI)
  then show ?thesis by simp
qed

lemma os_makedirs_Inr:
  assumes "os_makedirs name s = Inr s'"
  shows "name \<noteq> [] \<and> files s' = files s \<and> dirs s' = dirs s \<union> set (dir_prefixes name)"
  using assms by (auto simp: os_makedirs_def split: if_splits)

lemma write_file_Inr:
  assumes "write_file p b s = Inr s'"
  shows "files s' = (files s)(p \<mapsto> b) \<and> dirs s' = dirs s"
  using assms by (auto simp: write_file_def split: if_splits)

lemma save_image_writes:
  assumes "save_image E img p s = (Inr n, s')"
  shows "\<exists>b. encode E p img = Inr b \<and> n = length b \<and> files s' p = Some b \<and>
             os_path_dirname p \<in> dirs s' \<and> set (dir_prefixes (os_path_dirname p)) \<subseteq> dirs s'"
proof -
  from assms obtain s1 b s2 where m: "os_makedirs (os_path_dirname p) s = Inr s1"
    and e: "encode E p img = Inr b" and w: "write_file p b s1 = Inr s2"
    and r: "n = length b" "s' = s2"
    by (auto simp: save_image_def Let_def split: sum.splits)
  from os_makedirs_Inr [OF m] have d: "os_path_dirname p \<noteq> []"
    and ds: "dirs s1 = dirs s \<union> set (dir_prefixes (os_path_dirname p))" by simp_all
  from write_file_Inr [OF w] have f2: "files s2 p = Some b" and d2: "dirs s2 = dirs s1" by simp_all
  from dir_prefixes_self [OF d] ds d2 have "os_path_dirname p \<in> dirs s2" by simp
  moreover from ds d2 have "set (dir_prefixes (os_path_dirname p)) \<subseteq> dirs s2" by simp
  ultimately show ?thesis using e r f2 by simp
qed

lemma save_image_no_directory:
  "CHR ''/'' \<notin> set p \<Longrightarrow> save_image E img p s = (Inl FileNotFoundError, s)"
proof -
  assume "CHR ''/'' \<notin> set p"
  then have "dropWhile (\<lambda>c. c \<noteq> CHR ''/'') (rev p) = []" by auto
  then have "os_path_dirname p = []" by (simp add: os_path_dirname_def slash_split_def)
  then show ?thesis by (simp add: save_image_def os_makedirs_def)
qed


section \<open>The loop over the levels\<close>

lemma levels_loop_results:
  "levels_loop E img out levels acc s = (Inr rs, s') \<Longrightarrow>
   \<exists>new. rs = acc @ new \<and> map r_n_colors new = levels \<and> (\<forall>r \<in> set new. level_result E img out r)"
proof (induction levels arbitrary: acc s)
  case Nil
  then show ?case by simp
next
  case (Cons k ks)
  let ?p = "os_path_join out (level_filename k)"
  from Cons.prems obtain c n s1 q where
    c: "compress_image_kmeans (kmeans E) (entropy E) img k = Inr c"
    and sv: "save_image E c ?p s = (Inr n, s1)"
    and q: "calculate_compression_ratio img c = Inr q"
    and rest: "levels_loop E img out ks
        (acc @ [\<lparr>r_n_colors = k, r_path = ?p, r_image = c, r_ratio = q, r_file_size = n\<rparr>]) s1
        = (Inr rs, s')"
    by (auto simp: Let_def split: sum.splits prod.splits)
  let ?r = "\<lparr>r_n_colors = k, r_path = ?p, r_image = c, r_ratio = q, r_file_size = n\<rparr>"
  from save_image_writes [OF sv] obtain b where "encode E ?p c = Inr b" "n = length b" by blast
  with c q have ok: "level_result E img out ?r" by (simp add: level_result_def)
  from Cons.IH [OF rest] obtain new where new: "rs = (acc @ [?r]) @ new"
    "map r_n_colors new = ks" "\<forall>r \<in> set new. level_result E img out r" by blast
  from new ok have "rs = acc @ (?r # new) \<and> map r_n_colors (?r # new) = k # ks \<and>
      (\<forall>r \<in> set (?r # new). level_result E img out r)" by simp
  then show ?case by (rule exI)
qed

lemma compress_with_multiple_levels_results:
  assumes "compress_with_multiple_levels E inp out levels s = (Inr (Some rs), s')"
  shows "\<exists>img. load_image E inp s = Some img \<and> map r_n_colors rs = levels \<and>
           (\<forall>r \<in> set rs. level_result E img out r)"
proof -
  from assms obtain img where img: "load_image E inp s = Some img"
    and loop: "levels_loop E img out levels [] s = (Inr rs, s')"
    by (auto simp: compress_with_multiple_levels_def split: option.splits sum.splits prod.splits)
  from levels_loop_results [OF loop] img show ?thesis by auto
qed

lemma compress_with_analysis_results:
  assumes "compress_with_analysis E inp out cmp s = (Inr (Some rs), s')"
  shows "\<exists>s2 s3. files s2 = files s \<and>
           compress_with_multiple_levels E inp out [4, 8, 16, 32, 64, 128] s2 = (Inr (Some rs), s3)"
proof -
  from assms obtain s1 s2 s3 where m1: "os_makedirs out s = Inr s1"
    and m2: "os_makedirs cmp s1 = Inr s2"
    and d: "compress_with_multiple_levels E inp out [4, 8, 16, 32, 64, 128] s2 = (Inr (Some rs), s3)"
    by (auto simp: compress_with_analysis_def Let_def
        split: sum.splits prod.splits option.splits list.splits)
  from os_makedirs_Inr [OF m1] os_makedirs_Inr [OF m2] have "files s2 = files s" by simp
  with d show ?thesis by blast
qed

lemma main_analysis_results:
  assumes "arg_analysis a" and "os_path_exists s (arg_input a)"
    and "main E a s = (Inr (Analysis (Some rs)), s')"
  shows "map r_n_colors rs = [4, 8, 16, 32, 64, 128] \<and>
         (\<exists>img. load_image E (arg_input a) s = Some img \<and>
            (\<forall>r \<in> set rs. level_result E img (arg_output a) r))"
proof -
  from assms obtain s'' where
    "compress_with_analysis E (arg_input a) (arg_output a) ''../images/comparisons'' s
       = (Inr (Some rs), s'')"
    by (auto simp: main_def split: sum.splits prod.splits)
  from compress_with_analysis_results [OF this] obtain s2 s3 where f: "files s2 = files s"
    and d: "compress_with_multiple_levels E (arg_input a) (arg_output a) [4, 8, 16, 32, 64, 128] s2
       = (Inr (Some rs), s3)" by blast
  from compress_with_multiple_levels_results [OF d] obtain img
    where img: "load_image E (arg_input a) s2 = Some img"
      and lv: "map r_n_colors rs = [4, 8, 16, 32, 64, 128]"
      and ok: "\<forall>r \<in> set rs. level_result E img (arg_output a) r" by auto
  from img load_image_files [OF f, of E "arg_input a"]
  have "load_image E (arg_input a) s = Some img" by simp
  with lv ok show ?thesis by simp
qed

lemma levels_loop_succeeds:
  assumes "\<forall>k \<in> set levels. \<exists>c. compress_image_kmeans (kmeans E) (entropy E) img k = Inr c \<and>
              nd_size c mod 3 = 0"
    and "nd_size img mod 3 = 0"
    and "\<forall>k \<in> set levels. \<forall>c. \<exists>b. encode E
            (os_path_join out (level_filename k)) c = Inr b"
    and "\<forall>k \<in> set levels. os_path_dirname
            (os_path_join out (level_filename k)) = D"
    and "D \<noteq> []"
    and "\<forall>q \<in> set (dir_prefixes D). files s q = None"
    and "\<forall>k \<in> set levels. os_path_join out (level_filename k)
            \<notin> dirs s \<union> set (dir_prefixes D)"
  shows "\<exists>rs s'. levels_loop E img out levels acc s = (Inr rs, s')"
  using assms
proof (induction levels arbitrary: acc s)
  case Nil
  then show ?case by simp
next
  case (Cons k ks)
  let ?p = "os_path_join out (level_filename k)"
  from Cons.prems(1) obtain c where c: "compress_image_kmeans (kmeans E) (entropy E) img k = Inr c"
    and c3: "nd_size c mod 3 = 0" by auto
  from Cons.prems(3) have "\<exists>b. encode E ?p c = Inr b" by simp
  then obtain b where b: "encode E ?p c = Inr b" ..
  from Cons.prems(4) have d: "os_path_dirname ?p = D" by simp
  from Cons.prems(7) have nd: "?p \<notin> dirs s" "?p \<notin> set (dir_prefixes D)" by simp_all
  let ?s1 = "s\<lparr>dirs := dirs s \<union> set (dir_prefixes D)\<rparr>"
  let ?s2 = "?s1\<lparr>files := (files ?s1)(?p \<mapsto> b)\<rparr>"
  from dir_prefixes_self [OF Cons.prems(5)] Cons.prems(6) have "files s D = None" by simp
  with Cons.prems(5,6) have m: "os_makedirs D s = Inr ?s1" by (simp add: os_makedirs_def)
  from dir_prefixes_self [OF Cons.prems(5)] nd have w: "write_file ?p b ?s1 = Inr ?s2"
    by (simp add: write_file_def d)
  have sv: "save_image E c ?p s = (Inr (length b), ?s2)"
    by (simp add: save_image_def d m b w)
  from Cons.prems(2) c3 obtain q where q: "calculate_compression_ratio img c = Inr q"
    by (simp add: calculate_compression_ratio_def reshape_m1_3_def Let_def)
  have "\<exists>rs s'. levels_loop E img out ks
      (acc @ [\<lparr>r_n_colors = k, r_path = ?p, r_image = c, r_ratio = q, r_file_size = length b\<rparr>]) ?s2
      = (Inr rs, s')"
  proof (rule Cons.IH)
    show "\<forall>k \<in> set ks. \<exists>c. compress_image_kmeans (kmeans E) (entropy E) img k = Inr c \<and>
              nd_size c mod 3 = 0" using Cons.prems(1) by simp
    show "nd_size img mod 3 = 0" by fact
    show "\<forall>k \<in> set ks. \<forall>c. \<exists>b. encode E
            (os_path_join out (level_filename k)) c = Inr b"
      using Cons.prems(3) by simp
    show "\<forall>k \<in> set ks. os_path_dirname
            (os_path_join out (level_filename k)) = D"
      using Cons.prems(4) by simp
    show "D \<noteq> []" by fact
    show "\<forall>q \<in> set (dir_prefixes D). files ?s2 q = None"
      using Cons.prems(6) nd(2) by auto
    show "\<forall>k \<in> set ks. os_path_join out (level_filename k)
            \<notin> dirs ?s2 \<union> set (dir_prefixes D)"
      using Cons.prems(7) by simp
  qed
  then show ?case by (simp add: c sv q Let_def)
qed

lemma main_analysis_succeeds:
  assumes an: "arg_analysis a" and ex: "os_path_exists s (arg_input a)"
    and fits: "kmeans_fits (kmeans E)"
    and ld: "load_image E (arg_input a) s = Some img"
    and sh: "shape img = [h, w, 3]" and ok: "nd_ok img" and big: "128 \<le> h * w"
    and enc: "\<forall>p c. \<exists>b. encode E p c = Inr b"
    and rep: "\<forall>rs d t. \<exists>t'. generate_full_report E (arg_input a) rs d t = Inr t'"
    and m1: "os_makedirs (arg_output a) s = Inr s1"
    and m2: "os_makedirs ''../images/comparisons'' s1 = Inr s2"
    and paths: "\<forall>k \<in> set [4, 8, 16, 32, 64, 128].
        os_path_dirname (os_path_join (arg_output a) (level_filename k)) = D \<and>
        os_path_join (arg_output a) (level_filename k) \<notin> dirs s2 \<union> set (dir_prefixes D)"
    and D: "D \<noteq> []" and free: "\<forall>q \<in> set (dir_prefixes D). files s q = None"
  shows "\<exists>rs s'. main E a s = (Inr (Analysis (Some rs)), s')"
proof -
  let ?L = "[4, 8, 16, 32, 64, 128] :: int list"
  from os_makedirs_Inr [OF m1] os_makedirs_Inr [OF m2] have f2: "files s2 = files s" by simp
  have comp: "\<forall>k \<in> set ?L. \<exists>c. compress_image_kmeans (kmeans E) (entropy E) img k = Inr c \<and>
      nd_size c mod 3 = 0"
  proof
    fix k :: int assume "k \<in> set ?L"
    then have "1 \<le> k" "k \<le> 128" by auto
    moreover from big have "int 128 \<le> int (h * w)" by (simp only: of_nat_le_iff)
    ultimately have k: "1 \<le> k" "k \<le> int (h * w)" by (simp_all del: of_nat_mult)
    from compress_image_kmeans_result [OF fits sh ok k, of "entropy E"]
    obtain c where "compress_image_kmeans (kmeans E) (entropy E) img k = Inr c"
      and "shape c = [h, w, 3]" by auto
    then show "\<exists>c. compress_image_kmeans (kmeans E) (entropy E) img k = Inr c \<and>
      nd_size c mod 3 = 0" by (simp add: nd_size_def)
  qed
  have "\<exists>rs s'. levels_loop E img (arg_output a) ?L [] s2 = (Inr rs, s')"
  proof (rule levels_loop_succeeds [where D = D])
    show "\<forall>k \<in> set ?L. \<exists>c. compress_image_kmeans (kmeans E) (entropy E) img k = Inr c \<and>
      nd_size c mod 3 = 0" by (rule comp)
    show "nd_size img mod 3 = 0" using sh by (simp add: nd_size_def)
    show "\<forall>k \<in> set ?L. \<forall>c. \<exists>b.
        encode E (os_path_join (arg_output a) (level_filename k)) c = Inr b"
      using enc by simp
    show "\<forall>k \<in> set ?L.
        os_path_dirname (os_path_join (arg_output a) (level_filename k)) = D"
      using paths by simp
    show "D \<noteq> []" by (rule D)
    show "\<forall>q \<in> set (dir_prefixes D). files s2 q = None" using free f2 by simp
    show "\<forall>k \<in> set ?L.
        os_path_join (arg_output a) (level_filename k) \<notin> dirs s2 \<union> set (dir_prefixes D)"
      using paths by simp
  qed
  then obtain rs s3 where
    loop: "levels_loop E img (arg_output a) ?L [] s2 = (Inr rs, s3)" by auto
  from ld load_image_files [OF f2, of E "arg_input a"]
  have ld2: "load_image E (arg_input a) s2 = Some img" by simp
  have d: "compress_with_multiple_levels E (arg_input a) (arg_output a) ?L s2
      = (Inr (Some rs), s3)"
    by (simp add: compress_with_multiple_levels_def ld2 loop del: levels_loop.simps)
  from rep [rule_format, of rs "''../images/comparisons''" s3] obtain s4 where
    r: "generate_full_report E (arg_input a) rs ''../images/comparisons'' s3 = Inr s4" ..
  have "\<exists>s'. compress_with_analysis E (arg_input a) (arg_output a) ''../images/comparisons'' s
      = (Inr (Some rs), s')"
  proof (cases rs)
    case Nil
    then show ?thesis by (simp add: compress_with_analysis_def m1 m2 d)
  next
    case (Cons x xs)
    with r show ?thesis by (simp add: compress_with_analysis_def m1 m2 d)
  qed
  then obtain s' where "compress_with_analysis E (arg_input a) (arg_output a)
      ''../images/comparisons'' s = (Inr (Some rs), s')" by auto
  with an ex have "main E a s = (Inr (Analysis (Some rs)), s')" by (simp add: main_def)
  then show ?thesis by (intro exI)
qed


section \<open>Facts about the sample inputs\<close>

lemma black_8x16_ok: "shape black_8x16 = [8, 16, 3]" "nd_ok black_8x16"
  by (simp_all add: black_8x16_def nd_ok_def nd_size_def)

lemma checker_2x2_ok: "shape checker_2x2 = [2, 2, 3]" "nd_ok checker_2x2"
  by (simp_all add: checker_2x2_def nd_ok_def nd_size_def)

lemma checker_samples:
  "sample_mean \<lparr>shape = [4, 3], data = data checker_2x2\<rparr> = [255 / 2, 255 / 2, 255 / 2]"
  "map (\<lambda>j. channel_sum \<lparr>shape = [4, 3], data = data checker_2x2\<rparr> j div 4) [0..<3]
     = [127, 127, 127]"
  by code_simp+

lemma sample_load: "load_image sample_env ''photo.png'' sample_fs = Some black_8x16"
  by (simp add: load_image_def sample_fs_def sample_env_def black_8x16_def)

lemma sample_reshape:
  "reshape_m1_3 black_8x16 = Inr \<lparr>shape = [128, 3], data = data black_8x16\<rparr>"
  by (simp add: reshape_m1_3_def nd_size_def black_8x16_def)

lemma rgba_fit:
  "first_k_kmeans \<lparr>n_clusters = 2, random_state = Some 42, n_init = 10\<rparr> 0
     \<lparr>shape = [4, 3], data = data rgba_1x3\<rparr>
   = Inr \<lparr>cluster_centers = \<lparr>shape = [2, 3], data = [1, 2, 3, 4, 5, 6]\<rparr>,
          labels = [0, 1, 0, 1]\<rparr>"
  by code_simp

lemma rgba_quantised:
  "map f64_to_uint8 (concat (map (nd_row \<lparr>shape = [2, 3], data = [1, 2, 3, 4, 5, 6]\<rparr>)
     [0, 1, 0, 1])) = [1, 2, 3, 4, 5, 6, 1, 2, 3, 4, 5, 6]"
  by code_simp

lemma sample_makedirs:
  "os_makedirs ''out'' sample_fs = Inr sample_fs1"
  "os_makedirs ''../images/comparisons'' sample_fs1 = Inr sample_fs2"
proof -
  have p1: "dir_prefixes ''out'' = [''out'']" by code_simp
  have p2: "dir_prefixes ''../images/comparisons'' =
      [''..'', ''../images'', ''../images/comparisons'']" by code_simp
  show "os_makedirs ''out'' sample_fs = Inr sample_fs1"
    by (simp add: os_makedirs_def sample_fs_def sample_fs1_def p1)
  show "os_makedirs ''../images/comparisons'' sample_fs1 = Inr sample_fs2"
    by (simp add: os_makedirs_def sample_fs1_def sample_fs2_def p2) auto
qed

lemma sample_paths:
  "\<forall>k \<in> set [4, 8, 16, 32, 64, 128].
     os_path_dirname (os_path_join ''out'' (level_filename k)) = ''out'' \<and>
     os_path_join ''out'' (level_filename k) \<notin> dirs sample_fs2 \<union> set (dir_prefixes ''out'')"
  by code_simp

lemma levels_loop_keeps_earlier_files:
  "(case levels_loop sample_env checker_2x2 ''out'' [2, 8] [] sample_fs of
      (r, s') \<Rightarrow> r = Inl ValueError \<and>
                 files s' ''out/compressed_2_colors.png'' \<noteq> None \<and>
                 files s' ''out/compressed_8_colors.png'' = None)"
  by code_simp

lemma sample_free: "\<forall>q \<in> set (dir_prefixes ''out''). files sample_fs q = None"
proof -
  have "dir_prefixes ''out'' = [''out'']" by code_simp
  then show ?thesis by (simp add: sample_fs_def)
qed


section \<open>The claims\<close>

text \<open>
  Claim C1. For a three-channel image and a cluster count \<open>k\<close> with
  \<open>1 \<le> k \<le> h * w\<close>, \<^verbatim>\<open>compress_image_kmeans\<close> returns an image each of whose pixels is
  one of the \<open>k\<close> centres the library has fitted, converted to bytes; so the output has
  at most \<open>k\<close> distinct colours. The library is any engine that fits valid requests.
\<close>

theorem compress_image_kmeans_at_most_k_colors:
  assumes "kmeans_fits km" "shape img = [h, w, 3]" "nd_ok img" "1 \<le> k" "k \<le> int (h * w)"
  shows "\<exists>out f. compress_image_kmeans km e img k = Inr out \<and>
           km \<lparr>n_clusters = k, random_state = Some 42, n_init = 10\<rparr> e
              \<lparr>shape = [h * w, 3], data = data img\<rparr> = Inr f \<and>
           colors out \<subseteq> (\<lambda>c. map f64_to_uint8 (nd_row (cluster_centers f) c)) ` {..<nat k} \<and>
           card (colors out) \<le> nat k"
proof -
  from compress_image_kmeans_result [OF assms, of e] obtain f
    where f: "km \<lparr>n_clusters = k, random_state = Some 42, n_init = 10\<rparr> e
                \<lparr>shape = [h * w, 3], data = data img\<rparr> = Inr f"
      and fo: "fit_ok (nat k) (h * w) f"
      and out: "compress_image_kmeans km e img k =
               Inr \<lparr>shape = [h, w, 3],
                    data = map f64_to_uint8 (concat (map (nd_row (cluster_centers f)) (labels f)))\<rparr>"
    by blast
  let ?out = "\<lparr>shape = [h, w, 3],
      data = map f64_to_uint8 (concat (map (nd_row (cluster_centers f)) (labels f)))\<rparr>"
  let ?C = "(\<lambda>c. map f64_to_uint8 (nd_row (cluster_centers f) c)) ` {..<nat k}"
  from fo have ll: "length (labels f) = h * w" and lb: "\<forall>l \<in> set (labels f). l < nat k"
    by (simp_all add: fit_ok_def)
  have cs: "colors ?out = (\<lambda>i. take 3 (drop (i * 3) (data ?out))) ` {..<h * w}"
    by (rule colors_three_channel) simp
  have sub: "colors ?out \<subseteq> ?C"
  proof
    fix r assume "r \<in> colors ?out"
    with cs obtain i where i: "i < h * w"
      and r: "r = take 3 (drop (i * 3) (data ?out))" by auto
    from r quantised_row [OF fo i, of f64_to_uint8]
    have "r = map f64_to_uint8 (nd_row (cluster_centers f) (labels f ! i))" by simp
    moreover from i ll lb have "labels f ! i < nat k" by simp
    ultimately show "r \<in> ?C" by blast
  qed
  have "card (colors ?out) \<le> card ?C" by (rule card_mono [OF _ sub]) simp
  also have "\<dots> \<le> card {..<nat k}" by (rule card_image_le) simp
  finally have "card (colors ?out) \<le> nat k" by simp
  with out f sub show ?thesis by blast
qed

theorem compress_image_kmeans_at_most_k_colors_witness:
  "kmeans_fits first_k_kmeans \<and> shape checker_2x2 = [2, 2, 3] \<and> nd_ok checker_2x2 \<and>
   (\<exists>out. compress_image_kmeans first_k_kmeans 0 checker_2x2 2 = Inr out \<and>
          card (colors out) \<le> 2)"
proof -
  have h: "shape checker_2x2 = [2, 2, 3]" "nd_ok checker_2x2" "(1::int) \<le> 2" "(2::int) \<le> int (2 * 2)"
    by (simp_all add: checker_2x2_def nd_ok_def nd_size_def)
  from compress_image_kmeans_at_most_k_colors [OF first_k_kmeans_fits h, of 0]
  have "\<exists>out. compress_image_kmeans first_k_kmeans 0 checker_2x2 2 = Inr out \<and>
          card (colors out) \<le> 2" by auto
  with first_k_kmeans_fits h show ?thesis by blast
qed


text \<open>
  Claim C2. Under the same conditions the output has the shape of the input, height,
  width and three channels, and the pixel in row \<open>y\<close> and column \<open>x\<close> is the centre of the
  cluster that the sample \<open>y * w + x\<close> was assigned to, each coordinate converted to a byte:
  for a coordinate from 0 up to, not including, 256 the byte is the coordinate with its
  fraction dropped.
\<close>

theorem compress_image_kmeans_shape_and_pixels:
  assumes "kmeans_fits km" "shape img = [h, w, 3]" "nd_ok img" "1 \<le> k" "k \<le> int (h * w)"
  shows "\<exists>out f. compress_image_kmeans km e img k = Inr out \<and>
           km \<lparr>n_clusters = k, random_state = Some 42, n_init = 10\<rparr> e
              \<lparr>shape = [h * w, 3], data = data img\<rparr> = Inr f \<and>
           shape out = shape img \<and> nd_ok out \<and>
           (\<forall>y < h. \<forall>x < w. labels f ! (y * w + x) < nat k \<and>
              nd_pixel out y x =
                map f64_to_uint8 (nd_row (cluster_centers f) (labels f ! (y * w + x))) \<and>
              (\<forall>j < 3.
                 0 \<le> nd_row (cluster_centers f) (labels f ! (y * w + x)) ! j \<and>
                 nd_row (cluster_centers f) (labels f ! (y * w + x)) ! j < 256 \<longrightarrow>
                 unat (nd_pixel out y x ! j) =
                   nat \<lfloor>nd_row (cluster_centers f) (labels f ! (y * w + x)) ! j\<rfloor>))"
proof -
  from compress_image_kmeans_result [OF assms, of e] obtain f
    where f: "km \<lparr>n_clusters = k, random_state = Some 42, n_init = 10\<rparr> e
                \<lparr>shape = [h * w, 3], data = data img\<rparr> = Inr f"
      and fo: "fit_ok (nat k) (h * w) f"
      and out: "compress_image_kmeans km e img k =
               Inr \<lparr>shape = [h, w, 3],
                    data = map f64_to_uint8 (concat (map (nd_row (cluster_centers f)) (labels f)))\<rparr>"
    by blast
  let ?out = "\<lparr>shape = [h, w, 3],
      data = map f64_to_uint8 (concat (map (nd_row (cluster_centers f)) (labels f)))\<rparr>"
  from fo have csh: "shape (cluster_centers f) = [nat k, 3]" and cok: "nd_ok (cluster_centers f)"
    by (simp_all add: fit_ok_def)
  have "shape ?out = shape img" using assms(2) by simp
  moreover have "nd_ok ?out"
    using quantised_length [OF fo] by (simp add: nd_ok_def nd_size_def)
  moreover have "\<forall>y < h. \<forall>x < w. labels f ! (y * w + x) < nat k \<and>
      nd_pixel ?out y x = map f64_to_uint8 (nd_row (cluster_centers f) (labels f ! (y * w + x))) \<and>
      (\<forall>j < 3.
         0 \<le> nd_row (cluster_centers f) (labels f ! (y * w + x)) ! j \<and>
         nd_row (cluster_centers f) (labels f ! (y * w + x)) ! j < 256 \<longrightarrow>
         unat (nd_pixel ?out y x ! j) =
           nat \<lfloor>nd_row (cluster_centers f) (labels f ! (y * w + x)) ! j\<rfloor>)"
  proof (intro allI impI conjI)
    fix y x assume yx: "y < h" "x < w"
    from fo pixel_index [OF yx] show lab: "labels f ! (y * w + x) < nat k"
      by (simp add: fit_ok_def)
    from quantised_pixel [OF fo yx]
    show px: "nd_pixel ?out y x =
        map f64_to_uint8 (nd_row (cluster_centers f) (labels f ! (y * w + x)))" .
    fix j :: nat assume j: "j < 3"
      and r: "0 \<le> nd_row (cluster_centers f) (labels f ! (y * w + x)) ! j \<and>
         nd_row (cluster_centers f) (labels f ! (y * w + x)) ! j < 256"
    from centre_row_length [OF csh cok lab] j
    have "nd_pixel ?out y x ! j =
        f64_to_uint8 (nd_row (cluster_centers f) (labels f ! (y * w + x)) ! j)"
      unfolding px by simp
    with r f64_to_uint8_in_range
    show "unat (nd_pixel ?out y x ! j) =
        nat \<lfloor>nd_row (cluster_centers f) (labels f ! (y * w + x)) ! j\<rfloor>" by simp
  qed
  ultimately show ?thesis using out f by blast
qed

theorem compress_image_kmeans_shape_and_pixels_witness:
  "kmeans_fits mean_kmeans \<and> shape checker_2x2 = [2, 2, 3] \<and> nd_ok checker_2x2 \<and>
   (\<exists>out. compress_image_kmeans mean_kmeans 0 checker_2x2 1 = Inr out \<and>
          shape out = [2, 2, 3] \<and> nd_ok out \<and>
          (\<forall>y < 2. \<forall>x < 2. \<forall>j < 3. unat (nd_pixel out y x ! j) = 127))"
proof -
  let ?P = "\<lparr>n_clusters = 1, random_state = Some 42, n_init = 10\<rparr>"
  let ?X = "\<lparr>shape = [2 * 2, 3], data = data checker_2x2\<rparr>"
  have k: "(1::int) \<le> 1" "(1::int) \<le> int (2 * 2)" by simp_all
  from compress_image_kmeans_shape_and_pixels [OF mean_kmeans_fits checker_2x2_ok k, of 0]
  obtain out f where out: "compress_image_kmeans mean_kmeans 0 checker_2x2 1 = Inr out"
    and f: "mean_kmeans ?P 0 ?X = Inr f"
    and sh: "shape out = shape checker_2x2" and ok: "nd_ok out"
    and px: "\<forall>y < 2. \<forall>x < 2. labels f ! (y * 2 + x) < nat 1 \<and>
              nd_pixel out y x =
                map f64_to_uint8 (nd_row (cluster_centers f) (labels f ! (y * 2 + x))) \<and>
              (\<forall>j < 3.
                 0 \<le> nd_row (cluster_centers f) (labels f ! (y * 2 + x)) ! j \<and>
                 nd_row (cluster_centers f) (labels f ! (y * 2 + x)) ! j < 256 \<longrightarrow>
                 unat (nd_pixel out y x ! j) =
                   nat \<lfloor>nd_row (cluster_centers f) (labels f ! (y * 2 + x)) ! j\<rfloor>)"
    by blast
  from f have "f = \<lparr>cluster_centers = \<lparr>shape = [1, 3], data = sample_mean ?X\<rparr>,
                   labels = replicate (nrows ?X) 0\<rparr>"
    by (simp add: mean_kmeans_def nrows_def)
  then have c: "nd_row (cluster_centers f) 0 = [255 / 2, 255 / 2, 255 / 2]"
    by (simp add: nd_row_def ncols_def checker_samples)
  have "\<forall>y < 2. \<forall>x < 2. \<forall>j < 3. unat (nd_pixel out y x ! j) = 127"
  proof (intro allI impI)
    fix y x j :: nat assume yx: "y < 2" "x < 2" and j: "j < 3"
    note p = px [rule_format, OF yx]
    from p have l: "labels f ! (y * 2 + x) = 0" by simp
    from j consider "j = 0" | "j = 1" | "j = 2" by linarith
    then have v: "nd_row (cluster_centers f) (labels f ! (y * 2 + x)) ! j = 255 / 2"
      unfolding l by cases (simp_all add: c)
    have "0 \<le> nd_row (cluster_centers f) (labels f ! (y * 2 + x)) ! j \<and>
        nd_row (cluster_centers f) (labels f ! (y * 2 + x)) ! j < 256"
      unfolding v by simp
    from p [THEN conjunct2, THEN conjunct2, rule_format, OF j this]
    show "unat (nd_pixel out y x ! j) = 127" unfolding v by simp
  qed
  with mean_kmeans_fits checker_2x2_ok out sh ok show ?thesis by simp
qed


text \<open>
  Claim C3. The program always seeds the library (\<^verbatim>\<open>random_state=42\<close>). With a library
  whose seeded results do not depend on the ambient random state of the process, two runs
  of \<^verbatim>\<open>compress_image_kmeans\<close> on the same array and cluster count return the same result,
  whatever the ambient states \<open>e\<close> and \<open>e'\<close> of the two runs.
\<close>

theorem compress_image_kmeans_deterministic:
  assumes "kmeans_seeded km"
  shows "compress_image_kmeans km e img k = compress_image_kmeans km e' img k"
proof -
  have "km \<lparr>n_clusters = k, random_state = Some 42, n_init = 10\<rparr> e X =
        km \<lparr>n_clusters = k, random_state = Some 42, n_init = 10\<rparr> e' X" for X
    using assms unfolding kmeans_seeded_def by simp
  then show ?thesis by (simp add: compress_image_kmeans_def split: sum.split)
qed

theorem compress_image_kmeans_deterministic_witness:
  "kmeans_seeded first_k_kmeans \<and>
   compress_image_kmeans first_k_kmeans 0 checker_2x2 2 =
   compress_image_kmeans first_k_kmeans 7 checker_2x2 2"
  using compress_image_kmeans_deterministic [OF first_k_kmeans_seeded, of 0 checker_2x2 2 7]
    first_k_kmeans_seeded by blast


text \<open>
  Claim C4, as amended. The program checks no cluster count itself; the clustering
  library does. A count below 1 it rejects with InvalidParameterError, a count above the
  number of samples with a plain ValueError, not with InvalidParameterError as the claim
  has it. Either error leaves
  \<^verbatim>\<open>compress_image_kmeans\<close> unchanged, and \<^verbatim>\<open>compress_image_file\<close> fails with it before
  \<^verbatim>\<open>save_image\<close> is reached: the file system is left as it was. (The loop over several
  levels has saved the earlier levels by then: \<open>levels_loop_keeps_earlier_files\<close>.)
\<close>

theorem invalid_k_fails_before_writing:
  assumes "kmeans_rejects (kmeans E)"
    and "load_image E input_path s = Some img"
    and "reshape_m1_3 img = Inr X"
    and "k < 1 \<or> int (nrows X) < k"
  shows "kmeans E \<lparr>n_clusters = k, random_state = Some 42, n_init = 10\<rparr> (entropy E) X
           = Inl (if k < 1 then InvalidParameterError else ValueError) \<and>
         compress_image_kmeans (kmeans E) (entropy E) img k
           = Inl (if k < 1 then InvalidParameterError else ValueError) \<and>
         compress_image_file E input_path output_path k s
           = (Inl (if k < 1 then InvalidParameterError else ValueError), s)"
proof -
  let ?err = "if k < 1 then InvalidParameterError else ValueError"
  from assms(3) have sh: "shape X = [nrows X, 3]"
    by (auto simp: reshape_m1_3_def nrows_def split: if_splits)
  from assms(1) sh have r:
    "k < 1 \<longrightarrow> kmeans E \<lparr>n_clusters = k, random_state = Some 42, n_init = 10\<rparr> (entropy E) X
        = Inl InvalidParameterError"
    "1 \<le> k \<and> int (nrows X) < k \<longrightarrow>
      kmeans E \<lparr>n_clusters = k, random_state = Some 42, n_init = 10\<rparr> (entropy E) X
        = Inl ValueError"
    unfolding kmeans_rejects_def by simp_all
  have km: "kmeans E \<lparr>n_clusters = k, random_state = Some 42, n_init = 10\<rparr> (entropy E) X
      = Inl ?err"
  proof (cases "k < 1")
    case True
    with r(1) show ?thesis by simp
  next
    case False
    with assms(4) r(2) show ?thesis by simp
  qed
  with assms(3) have c: "compress_image_kmeans (kmeans E) (entropy E) img k = Inl ?err"
    by (simp add: compress_image_kmeans_def)
  with assms(2) have "compress_image_file E input_path output_path k s = (Inl ?err, s)"
    by (simp add: compress_image_file_def)
  with km c show ?thesis by simp
qed

theorem invalid_k_fails_before_writing_witness:
  "kmeans_rejects (kmeans sample_env) \<and>
   load_image sample_env ''photo.png'' sample_fs = Some black_8x16 \<and>
   compress_image_kmeans (kmeans sample_env) (entropy sample_env) black_8x16 200 = Inl ValueError \<and>
   compress_image_file sample_env ''photo.png'' ''out/photo_compressed_200.png'' 200 sample_fs
     = (Inl ValueError, sample_fs) \<and>
   compress_image_kmeans (kmeans sample_env) (entropy sample_env) black_8x16 0
     = Inl InvalidParameterError \<and>
   compress_image_file sample_env ''photo.png'' ''out/photo_compressed_0.png'' 0 sample_fs
     = (Inl InvalidParameterError, sample_fs)"
proof -
  let ?X = "\<lparr>shape = [128, 3], data = data black_8x16\<rparr>"
  have r: "kmeans_rejects (kmeans sample_env)"
    using first_k_kmeans_rejects by (simp add: sample_env_def)
  have k: "(200::int) < 1 \<or> int (nrows ?X) < 200" by (simp add: nrows_def)
  have z: "(0::int) < 1 \<or> int (nrows ?X) < 0" by simp
  from invalid_k_fails_before_writing [OF r sample_load sample_reshape k,
      of "''out/photo_compressed_200.png''"]
    invalid_k_fails_before_writing [OF r sample_load sample_reshape z,
      of "''out/photo_compressed_0.png''"] r sample_load
  show ?thesis by simp
qed

theorem invalid_k_error_counterexample:
  "reshape_m1_3 black_8x16 = Inr \<lparr>shape = [128, 3], data = data black_8x16\<rparr> \<and>
   int (nrows \<lparr>shape = [128, 3], data = data black_8x16\<rparr>) < 200 \<and>
   kmeans_rejects first_k_kmeans \<and>
   compress_image_kmeans first_k_kmeans 0 black_8x16 200 = Inl ValueError \<and>
   compress_image_kmeans first_k_kmeans 0 black_8x16 200 \<noteq> Inl InvalidParameterError"
proof -
  have "first_k_kmeans \<lparr>n_clusters = 200, random_state = Some 42, n_init = 10\<rparr> 0
      \<lparr>shape = [128, 3], data = data black_8x16\<rparr> = Inl ValueError"
    by (simp add: first_k_kmeans_def nrows_def)
  then have "compress_image_kmeans first_k_kmeans 0 black_8x16 200 = Inl ValueError"
    by (simp add: compress_image_kmeans_def sample_reshape)
  with sample_reshape first_k_kmeans_rejects show ?thesis by (simp add: nrows_def)
qed


text \<open>
  Claim C5, as amended. For images of three channels \<^verbatim>\<open>calculate_compression_ratio\<close>
  returns the number of distinct colours of the original divided by that of the compressed
  image, and 1 when the compressed image has no colour at all; and for no arrays whatever
  does it divide by zero. The function counts groups of three elements, so for an image of
  another number of channels the count is not that of its colours.
\<close>

theorem calculate_compression_ratio_unique_colors:
  assumes "shape a = [h, w, 3]" and "shape b = [h', w', 3]"
  shows "calculate_compression_ratio a b =
           Inr (if card (colors b) = 0 then 1
                else real (card (colors a)) / real (card (colors b))) \<and>
         calculate_compression_ratio a' b' \<noteq> Inl ZeroDivisionError"
proof -
  have u: "length (np_unique_rows \<lparr>shape = [nd_size c div 3, 3], data = data c\<rparr>) = card (colors c)"
    if "shape c = [m, n, 3]" for c :: "uint8 ndarray" and m n
  proof -
    from that have "nd_size c div 3 = m * n" by (simp add: nd_size_def)
    then have "set (nd_rows \<lparr>shape = [nd_size c div 3, 3], data = data c\<rparr>)
        = (\<lambda>i. take 3 (drop (i * 3) (data c))) ` {..<m * n}"
      by (simp add: nd_rows_def nd_row_def nrows_def ncols_def atLeast0LessThan)
    with colors_three_channel [OF that] show ?thesis
      by (simp add: np_unique_rows_def length_remdups_card_conv)
  qed
  from assms have "nd_size a mod 3 = 0" "nd_size b mod 3 = 0" by (simp_all add: nd_size_def)
  then have "calculate_compression_ratio a b =
           Inr (if card (colors b) = 0 then 1
                else real (card (colors a)) / real (card (colors b)))"
    by (simp add: calculate_compression_ratio_def reshape_m1_3_def Let_def
        u [OF assms(1)] u [OF assms(2)])
  moreover have "calculate_compression_ratio a' b' \<noteq> Inl ZeroDivisionError"
    by (simp add: calculate_compression_ratio_def reshape_m1_3_def Let_def)
  ultimately show ?thesis by simp
qed

theorem calculate_compression_ratio_unique_colors_witness:
  "shape checker_2x2 = [2, 2, 3] \<and> shape flat_7 = [1, 2, 3] \<and> shape empty_0x0 = [0, 0, 3] \<and>
   card (colors checker_2x2) = 2 \<and> card (colors flat_7) = 1 \<and> card (colors empty_0x0) = 0 \<and>
   calculate_compression_ratio checker_2x2 flat_7 = Inr 2 \<and>
   calculate_compression_ratio checker_2x2 empty_0x0 = Inr 1"
proof -
  have s: "shape checker_2x2 = [2, 2, 3]" "shape flat_7 = [1, 2, 3]" "shape empty_0x0 = [0, 0, 3]"
    by (simp_all add: checker_2x2_def flat_7_def empty_0x0_def)
  have "colors checker_2x2 = {[0, 0, 0], [255, 255, 255]}"
    by code_simp
  then have c1: "card (colors checker_2x2) = 2" by simp
  have "colors flat_7 = {[7, 7, 7]}"
    by code_simp
  then have c2: "card (colors flat_7) = 1" by simp
  have "colors empty_0x0 = {}"
    by code_simp
  then have c3: "card (colors empty_0x0) = 0" by simp
  from calculate_compression_ratio_unique_colors [OF s(1) s(2)]
    calculate_compression_ratio_unique_colors [OF s(1) s(3)] c1 c2 c3 s
  show ?thesis by simp
qed

theorem calculate_compression_ratio_counterexample:
  "card (colors rgba_plain) = 1 \<and> card (colors flat_7) = 1 \<and>
   calculate_compression_ratio rgba_plain flat_7 = Inr 4 \<and>
   calculate_compression_ratio rgba_plain flat_7
     \<noteq> Inr (real (card (colors rgba_plain)) / real (card (colors flat_7)))"
proof -
  have "colors rgba_plain = {[1, 2, 3, 4]}"
    by code_simp
  then have c1: "card (colors rgba_plain) = 1" by simp
  have "colors flat_7 = {[7, 7, 7]}"
    by code_simp
  then have c2: "card (colors flat_7) = 1" by simp
  have n: "length (np_unique_rows \<lparr>shape = [4, 3], data = data rgba_plain\<rparr>) = 4"
    "length (np_unique_rows \<lparr>shape = [2, 3], data = data flat_7\<rparr>) = 1"
    by code_simp+
  have "nd_size rgba_plain = 12" "nd_size flat_7 = 6"
    by (simp_all add: rgba_plain_def flat_7_def nd_size_def)
  then have "calculate_compression_ratio rgba_plain flat_7 = Inr 4"
    by (simp add: calculate_compression_ratio_def reshape_m1_3_def Let_def n)
  with c1 c2 show ?thesis by simp
qed


text \<open>
  Claim C6. With one cluster and an image of at least one pixel, every pixel of the
  output is the same colour: the centre the library has fitted, which for one cluster is
  the mean of all samples, converted to bytes. Channel by channel that is the sum of the
  channel over the pixels divided by their number, the fraction dropped.
\<close>

theorem compress_image_kmeans_single_color:
  assumes "kmeans_fits km" "kmeans_one_mean km"
    and "shape img = [h, w, 3]" "nd_ok img" "0 < h * w"
  shows "\<exists>out f. compress_image_kmeans km e img 1 = Inr out \<and>
           km \<lparr>n_clusters = 1, random_state = Some 42, n_init = 10\<rparr> e
              \<lparr>shape = [h * w, 3], data = data img\<rparr> = Inr f \<and>
           nd_row (cluster_centers f) 0 = sample_mean \<lparr>shape = [h * w, 3], data = data img\<rparr> \<and>
           (\<forall>y < h. \<forall>x < w.
              nd_pixel out y x = map f64_to_uint8 (nd_row (cluster_centers f) 0) \<and>
              map unat (nd_pixel out y x) =
                map (\<lambda>j. channel_sum \<lparr>shape = [h * w, 3], data = data img\<rparr> j div (h * w))
                  [0..<3]) \<and>
           colors out = {map f64_to_uint8 (nd_row (cluster_centers f) 0)}"
proof -
  let ?P = "\<lparr>n_clusters = 1, random_state = Some 42, n_init = 10\<rparr>"
  let ?X = "\<lparr>shape = [h * w, 3], data = data img\<rparr>"
  from assms(5) have k: "(1::int) \<le> 1" "1 \<le> int (h * w)" by (simp_all del: of_nat_mult)
  from compress_image_kmeans_result [OF assms(1,3,4) k, of e] obtain f
    where f: "km ?P e ?X = Inr f"
      and fo: "fit_ok (nat 1) (h * w) f"
      and out: "compress_image_kmeans km e img 1 =
               Inr \<lparr>shape = [h, w, 3],
                    data = map f64_to_uint8 (concat (map (nd_row (cluster_centers f)) (labels f)))\<rparr>"
    by blast
  let ?out = "\<lparr>shape = [h, w, 3],
      data = map f64_to_uint8 (concat (map (nd_row (cluster_centers f)) (labels f)))\<rparr>"
  let ?c = "map f64_to_uint8 (nd_row (cluster_centers f) 0)"
  have okX: "nd_ok ?X" using assms(3,4) by (simp add: nd_ok_def nd_size_def)
  have nr: "nrows ?X = h * w" by (simp add: nrows_def)
  from assms(2) okX assms(5) have "\<exists>g. km ?P e ?X = Inr g \<and> nd_row (cluster_centers g) 0 = sample_mean ?X"
    unfolding kmeans_one_mean_def
    by (metis kmeans_params.select_convs(1) ndarray.select_convs(1))
  with f have mean: "nd_row (cluster_centers f) 0 = sample_mean ?X" by auto
  from fo have ll: "length (labels f) = h * w" and lb: "\<forall>l \<in> set (labels f). l = 0"
    by (simp_all add: fit_ok_def)
  have lab: "labels f ! i = 0" if "i < h * w" for i using that ll lb by simp
  have un: "map unat ?c = map (\<lambda>j. channel_sum ?X j div (h * w)) [0..<3]"
  proof -
    have "unat (f64_to_uint8 (real (channel_sum ?X j) / real (h * w))) = channel_sum ?X j div (h * w)"
      for j
      using f64_to_uint8_mean [OF assms(5), of "channel_sum ?X j"] channel_sum_bound [of ?X j] nr
      by (simp add: mult.commute)
    then show ?thesis unfolding mean sample_mean_def nr by (simp add: comp_def)
  qed
  have px: "\<forall>y < h. \<forall>x < w. nd_pixel ?out y x = ?c \<and>
      map unat (nd_pixel ?out y x) = map (\<lambda>j. channel_sum ?X j div (h * w)) [0..<3]"
  proof (intro allI impI)
    fix y x assume yx: "y < h" "x < w"
    from quantised_pixel [OF fo yx, of f64_to_uint8] lab [OF pixel_index [OF yx]]
    have "nd_pixel ?out y x = ?c" by simp
    with un show "nd_pixel ?out y x = ?c \<and>
      map unat (nd_pixel ?out y x) = map (\<lambda>j. channel_sum ?X j div (h * w)) [0..<3]" by simp
  qed
  have row: "take 3 (drop (i * 3) (data ?out)) = ?c" if "i < h * w" for i
    using quantised_row [OF fo that, of f64_to_uint8] lab [OF that] by simp
  have "colors ?out = (\<lambda>i. take 3 (drop (i * 3) (data ?out))) ` {..<h * w}"
    by (rule colors_three_channel) simp
  also have "\<dots> = (\<lambda>i. ?c) ` {..<h * w}"
    by (rule image_cong) (simp_all add: row del: ndarray.simps)
  also have "\<dots> = {?c}" by (rule image_constant [of 0]) (use assms(5) in simp)
  finally have "colors ?out = {?c}" .
  with out f mean px show ?thesis by blast
qed

theorem compress_image_kmeans_single_color_witness:
  "kmeans_fits mean_kmeans \<and> kmeans_one_mean mean_kmeans \<and>
   shape checker_2x2 = [2, 2, 3] \<and> nd_ok checker_2x2 \<and>
   (\<exists>out. compress_image_kmeans mean_kmeans 0 checker_2x2 1 = Inr out \<and>
      (\<forall>y < 2. \<forall>x < 2. map unat (nd_pixel out y x) = [127, 127, 127]) \<and>
      card (colors out) = 1)"
proof -
  have p: "(0::nat) < 2 * 2" by simp
  from compress_image_kmeans_single_color [OF mean_kmeans_fits mean_kmeans_one_mean
      checker_2x2_ok p, of 0]
  obtain out where "\<exists>f. compress_image_kmeans mean_kmeans 0 checker_2x2 1 = Inr out \<and>
           mean_kmeans \<lparr>n_clusters = 1, random_state = Some 42, n_init = 10\<rparr> 0
              \<lparr>shape = [2 * 2, 3], data = data checker_2x2\<rparr> = Inr f \<and>
           nd_row (cluster_centers f) 0 =
             sample_mean \<lparr>shape = [2 * 2, 3], data = data checker_2x2\<rparr> \<and>
           (\<forall>y < 2. \<forall>x < 2.
              nd_pixel out y x = map f64_to_uint8 (nd_row (cluster_centers f) 0) \<and>
              map unat (nd_pixel out y x) =
                map (\<lambda>j. channel_sum \<lparr>shape = [2 * 2, 3], data = data checker_2x2\<rparr> j div (2 * 2))
                  [0..<3]) \<and>
           colors out = {map f64_to_uint8 (nd_row (cluster_centers f) 0)}" ..
  then obtain f where A: "compress_image_kmeans mean_kmeans 0 checker_2x2 1 = Inr out \<and>
           mean_kmeans \<lparr>n_clusters = 1, random_state = Some 42, n_init = 10\<rparr> 0
              \<lparr>shape = [2 * 2, 3], data = data checker_2x2\<rparr> = Inr f \<and>
           nd_row (cluster_centers f) 0 =
             sample_mean \<lparr>shape = [2 * 2, 3], data = data checker_2x2\<rparr> \<and>
           (\<forall>y < 2. \<forall>x < 2.
              nd_pixel out y x = map f64_to_uint8 (nd_row (cluster_centers f) 0) \<and>
              map unat (nd_pixel out y x) =
                map (\<lambda>j. channel_sum \<lparr>shape = [2 * 2, 3], data = data checker_2x2\<rparr> j div (2 * 2))
                  [0..<3]) \<and>
           colors out = {map f64_to_uint8 (nd_row (cluster_centers f) 0)}" ..
  from A have out: "compress_image_kmeans mean_kmeans 0 checker_2x2 1 = Inr out" by (rule conjunct1)
  have q: "map (\<lambda>j. channel_sum \<lparr>shape = [2 * 2, 3], data = data checker_2x2\<rparr> j div (2 * 2)) [0..<3]
      = [127, 127, 127]"
    using checker_samples(2) by simp
  have px: "\<forall>y < 2. \<forall>x < 2. map unat (nd_pixel out y x) = [127, 127, 127]"
  proof (intro allI impI)
    fix y x :: nat assume yx: "y < 2" "x < 2"
    from A [THEN conjunct2, THEN conjunct2, THEN conjunct2, THEN conjunct1, rule_format, OF yx]
    show "map unat (nd_pixel out y x) = [127, 127, 127]" unfolding q by (rule conjunct2)
  qed
  from A [THEN conjunct2, THEN conjunct2, THEN conjunct2, THEN conjunct2]
  have "card (colors out) = 1" by simp
  with out px have "\<exists>out. compress_image_kmeans mean_kmeans 0 checker_2x2 1 = Inr out \<and>
      (\<forall>y < 2. \<forall>x < 2. map unat (nd_pixel out y x) = [127, 127, 127]) \<and>
      card (colors out) = 1" by (intro exI conjI)
  with mean_kmeans_fits mean_kmeans_one_mean checker_2x2_ok show ?thesis by simp
qed


text \<open>
  Claim C7. With the analysis flag and an existing input, \<^verbatim>\<open>main\<close> runs
  \<^verbatim>\<open>compress_with_multiple_levels\<close> over the levels 4, 8, 16, 32, 64, 128. Whenever results come
  back, there is one per level, in that order, each holding its level, the compressed
  image, the ratio and the size of the file written (\<open>level_result\<close>). And results do come
  back when the input decodes to a three-channel image of at least 128 pixels, the library
  fits, the encoder and the report succeed, the two directories can be made and the six
  output paths are free.
\<close>

theorem full_analysis_levels_and_results:
  assumes "arg_analysis a" and "os_path_exists s (arg_input a)"
  shows "(\<forall>rs s'. main E a s = (Inr (Analysis (Some rs)), s') \<longrightarrow>
            map r_n_colors rs = [4, 8, 16, 32, 64, 128] \<and>
            (\<exists>img. load_image E (arg_input a) s = Some img \<and>
               (\<forall>r \<in> set rs. level_result E img (arg_output a) r))) \<and>
         (kmeans_fits (kmeans E) \<and> load_image E (arg_input a) s = Some img \<and>
          shape img = [h, w, 3] \<and> nd_ok img \<and> 128 \<le> h * w \<and>
          (\<forall>p c. \<exists>b. encode E p c = Inr b) \<and>
          (\<forall>rs d t. \<exists>t'. generate_full_report E (arg_input a) rs d t = Inr t') \<and>
          os_makedirs (arg_output a) s = Inr s1 \<and>
          os_makedirs ''../images/comparisons'' s1 = Inr s2 \<and>
          (\<forall>k \<in> set [4, 8, 16, 32, 64, 128].
             os_path_dirname (os_path_join (arg_output a) (level_filename k)) = D \<and>
             os_path_join (arg_output a) (level_filename k) \<notin> dirs s2 \<union> set (dir_prefixes D)) \<and>
          D \<noteq> [] \<and> (\<forall>q \<in> set (dir_prefixes D). files s q = None)
          \<longrightarrow> (\<exists>rs s'. main E a s = (Inr (Analysis (Some rs)), s')))"
proof (intro conjI allI impI)
  fix rs s' assume "main E a s = (Inr (Analysis (Some rs)), s')"
  from main_analysis_results [OF assms this]
  show "map r_n_colors rs = [4, 8, 16, 32, 64, 128]"
    and "\<exists>img. load_image E (arg_input a) s = Some img \<and>
               (\<forall>r \<in> set rs. level_result E img (arg_output a) r)" by simp_all
next
  assume "kmeans_fits (kmeans E) \<and> load_image E (arg_input a) s = Some img \<and>
          shape img = [h, w, 3] \<and> nd_ok img \<and> 128 \<le> h * w \<and>
          (\<forall>p c. \<exists>b. encode E p c = Inr b) \<and>
          (\<forall>rs d t. \<exists>t'. generate_full_report E (arg_input a) rs d t = Inr t') \<and>
          os_makedirs (arg_output a) s = Inr s1 \<and>
          os_makedirs ''../images/comparisons'' s1 = Inr s2 \<and>
          (\<forall>k \<in> set [4, 8, 16, 32, 64, 128].
             os_path_dirname (os_path_join (arg_output a) (level_filename k)) = D \<and>
             os_path_join (arg_output a) (level_filename k) \<notin> dirs s2 \<union> set (dir_prefixes D)) \<and>
          D \<noteq> [] \<and> (\<forall>q \<in> set (dir_prefixes D). files s q = None)"
  then show "\<exists>rs s'. main E a s = (Inr (Analysis (Some rs)), s')"
    by (intro main_analysis_succeeds [OF assms, where img = img and h = h and w = w
          and ?s1.0 = s1 and ?s2.0 = s2 and D = D]) (elim conjE, assumption)+
qed

theorem full_analysis_levels_and_results_witness:
  "arg_analysis sample_args \<and> os_path_exists sample_fs (arg_input sample_args) \<and>
   (\<exists>rs s'. main sample_env sample_args sample_fs = (Inr (Analysis (Some rs)), s') \<and>
      map r_n_colors rs = [4, 8, 16, 32, 64, 128] \<and>
      (\<forall>r \<in> set rs. level_result sample_env black_8x16 ''out'' r))"
proof -
  have h: "arg_analysis sample_args" "os_path_exists sample_fs (arg_input sample_args)"
    by (simp_all add: sample_args_def os_path_exists_def sample_fs_def)
  have ld: "load_image sample_env (arg_input sample_args) sample_fs = Some black_8x16"
    by (simp add: load_image_def sample_fs_def sample_env_def sample_args_def black_8x16_def)
  have out: "arg_output sample_args = ''out''" by (simp add: sample_args_def)
  note t = full_analysis_levels_and_results [OF h, of sample_env black_8x16 8 16
      sample_fs1 sample_fs2 "''out''"]
  have ready: "kmeans_fits (kmeans sample_env) \<and>
      load_image sample_env (arg_input sample_args) sample_fs = Some black_8x16 \<and>
      shape black_8x16 = [8, 16, 3] \<and> nd_ok black_8x16 \<and> (128::nat) \<le> 8 * 16 \<and>
      (\<forall>p c. \<exists>b. encode sample_env p c = Inr b) \<and>
      (\<forall>rs d t. \<exists>t'. generate_full_report sample_env (arg_input sample_args) rs d t = Inr t') \<and>
      os_makedirs (arg_output sample_args) sample_fs = Inr sample_fs1 \<and>
      os_makedirs ''../images/comparisons'' sample_fs1 = Inr sample_fs2 \<and>
      (\<forall>k \<in> set [4, 8, 16, 32, 64, 128].
         os_path_dirname (os_path_join (arg_output sample_args) (level_filename k)) = ''out'' \<and>
         os_path_join (arg_output sample_args) (level_filename k)
           \<notin> dirs sample_fs2 \<union> set (dir_prefixes ''out'')) \<and>
      ''out'' \<noteq> [] \<and> (\<forall>q \<in> set (dir_prefixes ''out''). files sample_fs q = None)"
    unfolding out
  proof (intro conjI)
    show "kmeans_fits (kmeans sample_env)"
      using first_k_kmeans_fits by (simp add: sample_env_def)
    show "load_image sample_env (arg_input sample_args) sample_fs = Some black_8x16" by (rule ld)
    show "shape black_8x16 = [8, 16, 3]" "nd_ok black_8x16" by (rule black_8x16_ok)+
    show "(128::nat) \<le> 8 * 16" by simp
    show "\<forall>p c. \<exists>b. encode sample_env p c = Inr b" by (simp add: sample_env_def)
    show "\<forall>rs d t. \<exists>t'. generate_full_report sample_env (arg_input sample_args) rs d t = Inr t'"
      by (simp add: sample_env_def)
    show "os_makedirs ''out'' sample_fs = Inr sample_fs1"
      "os_makedirs ''../images/comparisons'' sample_fs1 = Inr sample_fs2"
      by (rule sample_makedirs)+
    show "\<forall>k \<in> set [4, 8, 16, 32, 64, 128].
         os_path_dirname (os_path_join ''out'' (level_filename k)) = ''out'' \<and>
         os_path_join ''out'' (level_filename k) \<notin> dirs sample_fs2 \<union> set (dir_prefixes ''out'')"
      by (rule sample_paths)
    show "''out'' \<noteq> []" by simp
    show "\<forall>q \<in> set (dir_prefixes ''out''). files sample_fs q = None" by (rule sample_free)
  qed
  from t ready obtain rs s' where
    r: "main sample_env sample_args sample_fs = (Inr (Analysis (Some rs)), s')" by auto
  from t r ld have res: "map r_n_colors rs = [4, 8, 16, 32, 64, 128]"
    "\<forall>r \<in> set rs. level_result sample_env black_8x16 ''out'' r"
    unfolding out by auto
  have "\<exists>rs s'. main sample_env sample_args sample_fs = (Inr (Analysis (Some rs)), s') \<and>
      map r_n_colors rs = [4, 8, 16, 32, 64, 128] \<and>
      (\<forall>r \<in> set rs. level_result sample_env black_8x16 ''out'' r)"
  proof (intro exI conjI)
    show "main sample_env sample_args sample_fs = (Inr (Analysis (Some rs)), s')" by (rule r)
    show "map r_n_colors rs = [4, 8, 16, 32, 64, 128]" by (rule res)
    show "\<forall>r \<in> set rs. level_result sample_env black_8x16 ''out'' r" by (rule res)
  qed
  with h show ?thesis by simp
qed


text \<open>
  Claim C8. When the input path does not exist, \<^verbatim>\<open>main\<close> leaves through
  \<^verbatim>\<open>sys.exit(1)\<close>: the status is not 0 and the file system is left as it was.
\<close>

theorem main_missing_input:
  assumes "\<not> os_path_exists s (arg_input a)"
  shows "main E a s = (Inl (SystemExit 1), s) \<and> exit_status (fst (main E a s)) \<noteq> 0"
  using assms by (simp add: main_def exit_status_def)

theorem main_missing_input_witness:
  "\<not> os_path_exists sample_fs ''missing.png'' \<and>
   main sample_env (sample_args\<lparr>arg_input := ''missing.png''\<rparr>) sample_fs
     = (Inl (SystemExit 1), sample_fs)"
proof -
  have h: "\<not> os_path_exists sample_fs (arg_input (sample_args\<lparr>arg_input := ''missing.png''\<rparr>))"
    by (simp add: os_path_exists_def sample_fs_def)
  from main_missing_input [OF h, of sample_env] h show ?thesis by simp
qed


text \<open>
  Claim C9. \<^verbatim>\<open>save_image\<close> is to create the directories above the output path and
  write the file there, also for a path without a directory part. For such a path, as
  \<^verbatim>\<open>output.jpg\<close> in the usage the module prints, \<^verbatim>\<open>os.path.dirname\<close> is empty and
  \<^verbatim>\<open>os.makedirs\<close> raises FileNotFoundError on it: nothing is written.
\<close>

theorem save_image_bare_filename:
  "save_image E img ''output.jpg'' s = (Inl FileNotFoundError, s) \<and>
   os_path_dirname ''output.jpg'' = []"
proof -
  have d: "os_path_dirname ''output.jpg'' = []"
    by (simp add: os_path_dirname_def slash_split_def)
  then show ?thesis by (simp add: save_image_def os_makedirs_def)
qed

theorem save_image_bare_filename_witness:
  "save_image sample_env flat_7 ''output.jpg'' sample_fs = (Inl FileNotFoundError, sample_fs)"
  using save_image_bare_filename [of sample_env flat_7 sample_fs] by simp


text \<open>
  Claim C10. \<^verbatim>\<open>compress_image_kmeans\<close> reads its input three elements at a time. An
  array whose size is no multiple of 3, as a single-channel image can be, makes it raise
  ValueError. A four-channel image whose size is a multiple of 3 is regrouped across its
  pixels: the second sample is the fourth channel of the first pixel followed by the first
  two channels of the second pixel. It is on these samples that the library is called:
  its error is the error of \<^verbatim>\<open>compress_image_kmeans\<close>, and its fit is laid out, three
  values at a time, over the four channels of the output.
\<close>

theorem compress_image_kmeans_reshape_three:
  "(nd_size img mod 3 \<noteq> 0 \<longrightarrow> compress_image_kmeans km e img k = Inl ValueError) \<and>
   (shape img = [h, w, 4] \<and> nd_ok img \<and> nd_size img mod 3 = 0 \<and> 2 \<le> h * w \<longrightarrow>
      (\<exists>X. reshape_m1_3 img = Inr X \<and>
           nd_row X 0 = take 3 (nd_pixel img 0 0) \<and>
           nd_row X 1 = [nd_pixel img 0 0 ! 3,
                         nd_pixel img (1 div w) (1 mod w) ! 0,
                         nd_pixel img (1 div w) (1 mod w) ! 1] \<and>
           (\<forall>err. km \<lparr>n_clusters = k, random_state = Some 42, n_init = 10\<rparr> e X = Inl err \<longrightarrow>
              compress_image_kmeans km e img k = Inl err) \<and>
           (\<forall>f. km \<lparr>n_clusters = k, random_state = Some 42, n_init = 10\<rparr> e X = Inr f \<and>
                fit_ok (nat k) (nrows X) f \<longrightarrow>
              compress_image_kmeans km e img k =
                Inr \<lparr>shape = [h, w, 4],
                     data = map f64_to_uint8
                       (concat (map (nd_row (cluster_centers f)) (labels f)))\<rparr>)))"
proof (intro conjI impI)
  assume "nd_size img mod 3 \<noteq> 0"
  then show "compress_image_kmeans km e img k = Inl ValueError"
    by (simp add: compress_image_kmeans_def reshape_m1_3_def)
next
  assume a: "shape img = [h, w, 4] \<and> nd_ok img \<and> nd_size img mod 3 = 0 \<and> 2 \<le> h * w"
  let ?P = "\<lparr>n_clusters = k, random_state = Some 42, n_init = 10\<rparr>"
  let ?d = "data img"
  let ?X = "\<lparr>shape = [nd_size img div 3, 3], data = ?d\<rparr>"
  from a have len: "length ?d = h * w * 4" by (simp add: nd_ok_def nd_size_def)
  with a have len8: "8 \<le> length ?d" by simp
  have "(1 div w) * w + 1 mod w = 1" by (rule div_mult_mod_eq)
  with a have p1: "nd_pixel img (1 div w) (1 mod w) = take 4 (drop 4 ?d)"
    by (simp add: nd_pixel_def)
  from a have p0: "nd_pixel img 0 0 = take 4 ?d" by (simp add: nd_pixel_def)
  have r0: "nd_row ?X 0 = take 3 ?d" by (simp add: nd_row_def ncols_def)
  have r1: "nd_row ?X 1 = [?d ! 3, ?d ! 4, ?d ! 5]"
    using take3_drop [of 3 ?d] len8 by (simp add: nd_row_def ncols_def)
  have rs: "reshape_m1_3 img = Inr ?X" using a by (simp add: reshape_m1_3_def)
  have c0: "nd_row ?X 0 = take 3 (nd_pixel img 0 0)" by (simp add: r0 p0)
  have c1: "nd_row ?X 1 = [nd_pixel img 0 0 ! 3,
                         nd_pixel img (1 div w) (1 mod w) ! 0,
                         nd_pixel img (1 div w) (1 mod w) ! 1]"
    unfolding r1 p0 p1 using len8 by simp
  have ce: "\<forall>err. km ?P e ?X = Inl err \<longrightarrow> compress_image_kmeans km e img k = Inl err"
    by (simp add: compress_image_kmeans_def rs)
  have cf: "\<forall>f. km ?P e ?X = Inr f \<and> fit_ok (nat k) (nrows ?X) f \<longrightarrow>
      compress_image_kmeans km e img k =
        Inr \<lparr>shape = [h, w, 4],
             data = map f64_to_uint8 (concat (map (nd_row (cluster_centers f)) (labels f)))\<rparr>"
  proof (intro allI impI)
    fix f assume f: "km ?P e ?X = Inr f \<and> fit_ok (nat k) (nrows ?X) f"
    then have csh: "shape (cluster_centers f) = [nat k, 3]"
      and ll: "length (labels f) = nd_size img div 3"
      and lb: "\<forall>l \<in> set (labels f). l < nat k"
      by (simp_all add: fit_ok_def nrows_def)
    have tr: "take_rows (cluster_centers f) (labels f) =
        Inr \<lparr>shape = [nd_size img div 3, 3],
             data = concat (map (nd_row (cluster_centers f)) (labels f))\<rparr>"
      using csh ll lb by (simp add: take_rows_def nrows_def ncols_def)
    from a have "3 dvd nd_size img" by (simp add: mod_eq_0_iff_dvd)
    then have "nd_size img div 3 * 3 = nd_size img" by (rule dvd_div_mult_self)
    moreover from a have "nd_size img = h * w * 4" by (simp add: nd_size_def)
    ultimately have "h * w * 4 = nd_size img div 3 * 3" by (simp only:)
    then have e: "prod_list [h, w, 4] =
        nd_size \<lparr>shape = [nd_size img div 3, 3],
          data = concat (map (nd_row (cluster_centers f)) (labels f))\<rparr>"
      unfolding nd_size_def by (simp add: mult.assoc)
    have rt: "reshape_to [h, w, 4]
        \<lparr>shape = [nd_size img div 3, 3],
         data = concat (map (nd_row (cluster_centers f)) (labels f))\<rparr>
        = Inr \<lparr>shape = [h, w, 4],
               data = concat (map (nd_row (cluster_centers f)) (labels f))\<rparr>"
      by (simp only: reshape_to_def e simp_thms if_True ndarray.select_convs)
    from f have kmf: "km ?P e ?X = Inr f" by (rule conjunct1)
    from a have si: "shape img = [h, w, 4]" by (rule conjunct1)
    show "compress_image_kmeans km e img k =
        Inr \<lparr>shape = [h, w, 4],
             data = map f64_to_uint8 (concat (map (nd_row (cluster_centers f)) (labels f)))\<rparr>"
      unfolding compress_image_kmeans_def Let_def rs si
      by (simp add: kmf tr rt astype_uint8_def)
  qed
  from rs c0 c1 ce cf
  show "\<exists>X. reshape_m1_3 img = Inr X \<and>
           nd_row X 0 = take 3 (nd_pixel img 0 0) \<and>
           nd_row X 1 = [nd_pixel img 0 0 ! 3,
                         nd_pixel img (1 div w) (1 mod w) ! 0,
                         nd_pixel img (1 div w) (1 mod w) ! 1] \<and>
           (\<forall>err. km ?P e X = Inl err \<longrightarrow> compress_image_kmeans km e img k = Inl err) \<and>
           (\<forall>f. km ?P e X = Inr f \<and> fit_ok (nat k) (nrows X) f \<longrightarrow>
              compress_image_kmeans km e img k =
                Inr \<lparr>shape = [h, w, 4],
                     data = map f64_to_uint8
                       (concat (map (nd_row (cluster_centers f)) (labels f)))\<rparr>)"
    by (intro exI [of _ ?X] conjI)
qed

theorem compress_image_kmeans_reshape_three_witness:
  "nd_size gray_2x2 mod 3 \<noteq> 0 \<and>
   compress_image_kmeans first_k_kmeans 0 gray_2x2 2 = Inl ValueError \<and>
   shape rgba_1x3 = [1, 3, 4] \<and> nd_ok rgba_1x3 \<and> nd_size rgba_1x3 mod 3 = 0 \<and>
   (\<exists>X. reshape_m1_3 rgba_1x3 = Inr X \<and> nd_row X 0 = [1, 2, 3] \<and> nd_row X 1 = [4, 5, 6]) \<and>
   compress_image_kmeans first_k_kmeans 0 rgba_1x3 2 =
     Inr \<lparr>shape = [1, 3, 4], data = [1, 2, 3, 4, 5, 6, 1, 2, 3, 4, 5, 6]\<rparr>"
proof -
  let ?P = "\<lparr>n_clusters = 2, random_state = Some 42, n_init = 10\<rparr>"
  let ?f = "\<lparr>cluster_centers = \<lparr>shape = [2, 3], data = [1, 2, 3, 4, 5, 6 :: real]\<rparr>,
            labels = [0, 1, 0, 1 :: nat]\<rparr>"
  have g: "nd_size gray_2x2 mod 3 \<noteq> 0" by (simp add: gray_2x2_def nd_size_def)
  have r: "shape rgba_1x3 = [1, 3, 4] \<and> nd_ok rgba_1x3 \<and> nd_size rgba_1x3 mod 3 = 0 \<and>
      (2::nat) \<le> 1 * 3"
    by (simp add: rgba_1x3_def nd_ok_def nd_size_def)
  have p: "nd_pixel rgba_1x3 0 0 = [1, 2, 3, 4]" "nd_pixel rgba_1x3 0 (Suc 0) = [5, 6, 7, 8]"
    by (simp_all add: rgba_1x3_def nd_pixel_def)
  from compress_image_kmeans_reshape_three [of gray_2x2 first_k_kmeans 0 2 1 3] g
  have 1: "compress_image_kmeans first_k_kmeans 0 gray_2x2 2 = Inl ValueError" by blast
  from compress_image_kmeans_reshape_three [of rgba_1x3 first_k_kmeans 0 2 1 3] r
  obtain X where X: "reshape_m1_3 rgba_1x3 = Inr X"
    and r0: "nd_row X 0 = take 3 (nd_pixel rgba_1x3 0 0)"
    and r1: "nd_row X 1 = [nd_pixel rgba_1x3 0 0 ! 3,
                         nd_pixel rgba_1x3 (1 div 3) (1 mod 3) ! 0,
                         nd_pixel rgba_1x3 (1 div 3) (1 mod 3) ! 1]"
    and cf: "\<forall>f. first_k_kmeans ?P 0 X = Inr f \<and> fit_ok (nat 2) (nrows X) f \<longrightarrow>
              compress_image_kmeans first_k_kmeans 0 rgba_1x3 2 =
                Inr \<lparr>shape = [1, 3, 4],
                     data = map f64_to_uint8
                       (concat (map (nd_row (cluster_centers f)) (labels f)))\<rparr>"
    by blast
  from X have Xe: "X = \<lparr>shape = [4, 3], data = data rgba_1x3\<rparr>"
    by (simp add: reshape_m1_3_def nd_size_def rgba_1x3_def)
  have fo: "fit_ok (nat 2) (nrows X) ?f"
    by (simp add: Xe fit_ok_def nd_ok_def nd_size_def nrows_def)
  have pre: "first_k_kmeans ?P 0 X = Inr ?f \<and> fit_ok (nat 2) (nrows X) ?f"
    using rgba_fit fo unfolding Xe by (intro conjI)
  from cf [rule_format, OF pre]
  have 3: "compress_image_kmeans first_k_kmeans 0 rgba_1x3 2 =
     Inr \<lparr>shape = [1, 3, 4], data = [1, 2, 3, 4, 5, 6, 1, 2, 3, 4, 5, 6]\<rparr>"
    by (simp only: kmeans_fit.select_convs rgba_quantised)
  from r0 r1 have n0: "nd_row X 0 = [1, 2, 3]" and n1: "nd_row X 1 = [4, 5, 6]"
    by (simp_all add: p)
  from X n0 n1
  have 2: "\<exists>X. reshape_m1_3 rgba_1x3 = Inr X \<and> nd_row X 0 = [1, 2, 3] \<and> nd_row X 1 = [4, 5, 6]"
    by (intro exI conjI)
  from g 1 r 2 3 show ?thesis by simp
qed

end
